theory Spec2Isabelle
  imports Complex_Main
begin

unbundle bit_operations_syntax

section \<open>Errors\<close>

text \<open>
  Every \<^verbatim>\<open>raise\<close> of \<^verbatim>\<open>nmea_msg.py\<close> is a \<^verbatim>\<open>ValueError\<close>; the constructor argument
  names the setter that raised it. \<open>RangeError\<close> and \<open>InvalidCharacterError\<close> are the
  failures of the bit and ASCII6 primitives.
\<close>

datatype attr = Call_sign | Ship_name | Ship_type | Draught | Destination

datatype error = ValueError attr | RangeError | InvalidCharacterError | KeyError | TypeError

fun bind_err :: "error + 'a \<Rightarrow> ('a \<Rightarrow> error + 'b) \<Rightarrow> error + 'b" where
  "bind_err (Inl e) f = Inl e"
| "bind_err (Inr x) f = f x"

section \<open>Bit and ASCII primitives (module nmea_utils)\<close>

text \<open>A bit field is a string of the characters 0 and 1, most significant bit first.\<close>

text \<open>The \<open>w\<close> low bits of a non-negative integer.\<close>

fun low_bits :: "nat \<Rightarrow> int \<Rightarrow> string" where
  "low_bits 0 v = []"
| "low_bits (Suc w) v = low_bits w (v div 2) @ [if odd v then CHR ''1'' else CHR ''0'']"

text \<open>
  Modelled from the spec: \<^verbatim>\<open>nmea_utils.convert_int_to_bits\<close> is not among the sources.
  Section 4.1: a bit field of exactly \<open>bits_count\<close> characters; with \<open>signed\<close> a negative
  value is the two's complement at that width and a positive one is zero-extended; a value
  that the width cannot represent fails with a range error.
\<close>

definition convert_int_to_bits :: "int \<Rightarrow> nat \<Rightarrow> bool \<Rightarrow> error + string" where
  "convert_int_to_bits num bits_count signed =
     (if signed then
        (if - (2 ^ bits_count) \<le> 2 * num \<and> 2 * num < 2 ^ bits_count
         then Inr (low_bits bits_count (num mod 2 ^ bits_count))
         else Inl RangeError)
      else
        (if 0 \<le> num \<and> num < 2 ^ bits_count
         then Inr (low_bits bits_count num)
         else Inl RangeError))"

text \<open>
  Modelled from the spec: \<^verbatim>\<open>nmea_utils.convert_bits_to_int\<close> is not among the sources.
  Section 4.1: the unsigned reading of a bit field.
\<close>

definition convert_bits_to_int :: "string \<Rightarrow> int" where
  "convert_bits_to_int bits = foldl (\<lambda>acc c. 2 * acc + (if c = CHR ''1'' then 1 else 0)) 0 bits"

text \<open>
  Modelled from the spec: \<^verbatim>\<open>nmea_utils.convert_decimal_to_ascii_code\<close> is not among the
  sources. Section 4.1 gives the two-range rule \<^verbatim>\<open>value < 40 ? value + 48 : value + 56\<close>.
\<close>

definition convert_decimal_to_ascii_code :: "int \<Rightarrow> int" where
  "convert_decimal_to_ascii_code decimal_num =
     (if decimal_num < 40 then decimal_num + 48 else decimal_num + 56)"

text \<open>
  Modelled from the spec: \<^verbatim>\<open>nmea_utils.get_char_of_ascii_code\<close> is not among the sources;
  it is the character with the given code.
\<close>

definition get_char_of_ascii_code :: "int \<Rightarrow> char" where
  "get_char_of_ascii_code ascii_code = char_of ascii_code"

text \<open>
  Modelled from the spec: \<^verbatim>\<open>nmea_utils.convert_ascii_char_to_ascii6_code\<close> is not among
  the sources. Section 4.1: the six-bit ordinal of the AIS alphabet table (codes 64 to 95,
  the at sign, the capital letters and five punctuation marks, map to 0 to 31; codes 32 to
  63, the space, the digits and the other punctuation marks, map to themselves); any other
  character fails.
\<close>

definition convert_ascii_char_to_ascii6_code :: "char \<Rightarrow> error + int" where
  "convert_ascii_char_to_ascii6_code c =
     (let ascii_code = (of_char c :: int) in
      if 64 \<le> ascii_code \<and> ascii_code < 96 then Inr (ascii_code - 64)
      else if 32 \<le> ascii_code \<and> ascii_code < 64 then Inr ascii_code
      else Inl InvalidCharacterError)"

text \<open>
  Modelled from the spec: \<^verbatim>\<open>nmea_utils.add_padding\<close> is not among the sources.
  Section 4.2: a shorter text is right-padded with spaces to the required length.
\<close>

definition add_padding :: "string \<Rightarrow> nat \<Rightarrow> string" where
  "add_padding text required_length = text @ replicate (required_length - length text) CHR '' ''"

text \<open>
  Modelled from the spec: \<^verbatim>\<open>nmea_utils.add_padding_0_bits\<close> is not among the sources.
  Its call site assigns a pair to the bit string and to \<open>fill_bits\<close>; after the glossary
  (zero bits added, and counted) it is the bit string right-padded with zeros and the number
  of zeros added.
\<close>

definition add_padding_0_bits :: "string \<Rightarrow> nat \<Rightarrow> string \<times> int" where
  "add_padding_0_bits bits_string required_length =
     (bits_string @ replicate (required_length - length bits_string) CHR ''0'',
      int (required_length - length bits_string))"

text \<open>
  Modelled from the spec: \<^verbatim>\<open>nmea_utils.nmea_checksum\<close> is not among the sources.
  Section 4.1: the exclusive or of every byte of the sentence body, as two upper-case
  hexadecimal digits, zero-padded.
\<close>

definition hex_digit :: "nat \<Rightarrow> char" where
  "hex_digit d = ''0123456789ABCDEF'' ! (d mod 16)"

definition xor_bytes :: "string \<Rightarrow> nat" where
  "xor_bytes s = foldl (\<lambda>acc c. acc XOR of_char c) 0 s"

definition nmea_checksum :: "string \<Rightarrow> string" where
  "nmea_checksum sentence_data =
     (let v = xor_bytes sentence_data in [hex_digit (v div 16), hex_digit (v mod 16)])"

section \<open>Python built-ins used by the module\<close>

text \<open>
  \<^verbatim>\<open>textwrap.wrap(text, width)\<close> on a text without white space and without hyphens, which
  is all the module passes to it (bit strings, and armored payloads whose characters have
  the codes 48 to 87 and 96 to 119): the text is cut every \<open>width\<close> characters and the
  empty text gives the empty list. The module calls it with the widths 6 and 60 only.
\<close>

function wrap :: "string \<Rightarrow> nat \<Rightarrow> string list" where
  "wrap text width =
     (if width = 0 \<or> text = [] then [] else take width text # wrap (drop width text) width)"
  by pat_completeness auto
termination
  by (relation "measure (\<lambda>(text, width). length text)") auto

declare wrap.simps [simp del]

text \<open>\<^verbatim>\<open>str\<close> of an integer, as an f-string renders it.\<close>

fun str_nat :: "nat \<Rightarrow> string" where
  "str_nat n =
     (if n < 10 then [''0123456789'' ! n]
      else str_nat (n div 10) @ [''0123456789'' ! (n mod 10)])"

declare str_nat.simps [simp del]

definition str_int :: "int \<Rightarrow> string" where
  "str_int i = (if i < 0 then CHR ''-'' # str_nat (nat (- i)) else str_nat (nat i))"

text \<open>\<^verbatim>\<open>int(x)\<close> of a float: truncation toward zero.\<close>

definition py_int :: "real \<Rightarrow> int" where
  "py_int x = (if 0 \<le> x then \<lfloor>x\<rfloor> else \<lceil>x\<rceil>)"

section \<open>Six-bit armoring: encode\<close>

text \<open>
  \<^verbatim>\<open>AISMsgPayload.encode\<close> and \<^verbatim>\<open>AISMsg.encode\<close> have the same body. The inner
  \<^verbatim>\<open>while len(item) < 6\<close> loop appends a zero to the item and adds one to
  \<^verbatim>\<open>self.fill_bits\<close>; the outer loop runs over the six-bit items and appends one
  character per item. The state threaded through is the object's \<open>fill_bits\<close>.
\<close>

function pad_item :: "string \<Rightarrow> int \<Rightarrow> string \<times> int" where
  "pad_item item fb = (if length item < 6 then pad_item (item @ ''0'') (fb + 1) else (item, fb))"
  by pat_completeness auto
termination
  by (relation "measure (\<lambda>(item, fb). 6 - length item)") auto

declare pad_item.simps [simp del]

fun encode_loop :: "string list \<Rightarrow> string \<Rightarrow> int \<Rightarrow> string \<times> int" where
  "encode_loop [] payload fb = (payload, fb)"
| "encode_loop (item # items) payload fb =
     (case pad_item item fb of (item', fb') \<Rightarrow>
        let decimal_num = convert_bits_to_int item';
            ascii_code = convert_decimal_to_ascii_code decimal_num;
            payload_char = get_char_of_ascii_code ascii_code
        in encode_loop items (payload @ [payload_char]) fb')"

text \<open>
  The body of \<open>encode\<close> on the object's \<open>payload_bits\<close> and its current \<open>fill_bits\<close>:
  the armored string and the \<open>fill_bits\<close> the object holds afterwards.
\<close>

definition encode_bits :: "string \<Rightarrow> int \<Rightarrow> string \<times> int" where
  "encode_bits payload_bits fb = encode_loop (wrap payload_bits 6) [] fb"

section \<open>Structured sub-fields (module ais_utils)\<close>

text \<open>
  Modelled from the spec: the classes \<^verbatim>\<open>ShipDimension\<close> and \<^verbatim>\<open>ShipEta\<close> of
  \<^verbatim>\<open>ais_utils\<close> are not among the sources. Section 4.3: four unsigned sub-fields, bow and
  stern at 9 bits clamped to 511, port and starboard at 6 bits clamped to 63, concatenated
  in this order into a 30-bit block; month at 4 bits, day and hour at 5 bits and minute at
  6 bits, concatenated into a 20-bit block.
\<close>

record ShipDimension =
  to_bow :: int
  to_stern :: int
  to_port :: int
  to_starboard :: int

definition ShipDimension_bits :: "ShipDimension \<Rightarrow> error + string" where
  "ShipDimension_bits d =
     bind_err (convert_int_to_bits (min (to_bow d) 511) 9 False) (\<lambda>b.
     bind_err (convert_int_to_bits (min (to_stern d) 511) 9 False) (\<lambda>s.
     bind_err (convert_int_to_bits (min (to_port d) 63) 6 False) (\<lambda>p.
     bind_err (convert_int_to_bits (min (to_starboard d) 63) 6 False) (\<lambda>r.
     Inr (b @ s @ p @ r)))))"

record ShipEta =
  month :: int
  day :: int
  hour :: int
  minute :: int

definition ShipEta_bits :: "ShipEta \<Rightarrow> error + string" where
  "ShipEta_bits e =
     bind_err (convert_int_to_bits (month e) 4 False) (\<lambda>mo.
     bind_err (convert_int_to_bits (day e) 5 False) (\<lambda>d.
     bind_err (convert_int_to_bits (hour e) 5 False) (\<lambda>h.
     bind_err (convert_int_to_bits (minute e) 6 False) (\<lambda>mi.
     Inr (mo @ d @ h @ mi)))))"

section \<open>The message classes\<close>

text \<open>
  Both base classes hold \<open>repeat_indicator\<close>, \<open>mmsi\<close> and \<open>fill_bits\<close>:
  \<^verbatim>\<open>AISMsgPayload\<close> keeps the first two as integers, \<^verbatim>\<open>AISMsg\<close> as bit strings.
\<close>

record ('r, 'm) AISMsg =
  repeat_indicator :: 'r
  mmsi :: 'm
  fill_bits :: int

subsection \<open>AISMsgType5: static and voyage related data\<close>

text \<open>
  The fields are the attributes the setters store (\<^verbatim>\<open>_imo\<close>, \<^verbatim>\<open>_call_sign\<close>, ...),
  each a bit string, under the name of the property that reads them.
\<close>

record AISMsgType5 = "(string, string) AISMsg" +
  msg_type :: string
  ais_version :: string
  imo :: string
  call_sign :: string
  ship_name :: string
  ship_type :: string
  dimension :: string
  pos_fix_type :: string
  eta :: string
  draught :: string
  destination :: string
  dte :: string
  spare :: string

definition mmsi_setter :: "AISMsgType5 \<Rightarrow> int \<Rightarrow> error + AISMsgType5" where
  "mmsi_setter self v =
     bind_err (convert_int_to_bits v 30 False) (\<lambda>b. Inr (self\<lparr>mmsi := b\<rparr>))"

definition imo_setter :: "AISMsgType5 \<Rightarrow> int \<Rightarrow> error + AISMsgType5" where
  "imo_setter self v =
     bind_err (convert_int_to_bits v 30 False) (\<lambda>b. Inr (self\<lparr>imo := b\<rparr>))"

text \<open>
  The loop \<^verbatim>\<open>for char in text\<close> of the three string setters: the ASCII6 code of each
  character, at six bits, appended to the bits so far.
\<close>

fun ascii6_bits :: "string \<Rightarrow> string \<Rightarrow> error + string" where
  "ascii6_bits [] bits = Inr bits"
| "ascii6_bits (c # cs) bits =
     bind_err (convert_ascii_char_to_ascii6_code c) (\<lambda>ascii6_code.
     bind_err (convert_int_to_bits ascii6_code 6 False) (\<lambda>six_bits.
     ascii6_bits cs (bits @ six_bits)))"

text \<open>
  The first half of a string setter, up to the text that is mapped through ASCII6:
  the length check, the replacement of the empty text, the padding.
\<close>

definition fixed_text :: "attr \<Rightarrow> nat \<Rightarrow> string \<Rightarrow> error + string" where
  "fixed_text a required_char_count text =
     (if \<not> length text \<le> required_char_count then Inl (ValueError a)
      else if length text = 0 then Inr (replicate required_char_count CHR ''@'')
      else Inr (add_padding text required_char_count))"

text \<open>
  The bits of the call sign before the test \<^verbatim>\<open>len(call_sign_bits) < required_bit_count\<close>.
\<close>

definition call_sign_bits :: "string \<Rightarrow> error + string" where
  "call_sign_bits v = bind_err (fixed_text Call_sign 7 v) (\<lambda>t. ascii6_bits t [])"

definition call_sign_setter :: "AISMsgType5 \<Rightarrow> string \<Rightarrow> error + AISMsgType5" where
  "call_sign_setter self v =
     bind_err (call_sign_bits v) (\<lambda>bits.
       if length bits < 42
       then (case add_padding_0_bits bits 42 of
               (bits', fb) \<Rightarrow> Inr (self\<lparr>fill_bits := fb, call_sign := bits'\<rparr>))
       else Inr (self\<lparr>call_sign := bits\<rparr>))"

definition ship_name_setter :: "AISMsgType5 \<Rightarrow> string \<Rightarrow> error + AISMsgType5" where
  "ship_name_setter self v =
     bind_err (fixed_text Ship_name 20 v) (\<lambda>t.
     bind_err (ascii6_bits t []) (\<lambda>bits. Inr (self\<lparr>ship_name := bits\<rparr>)))"

definition ship_type_setter :: "AISMsgType5 \<Rightarrow> int \<Rightarrow> error + AISMsgType5" where
  "ship_type_setter self v =
     (if \<not> (1 \<le> v \<and> v < 100) then Inl (ValueError Ship_type)
      else bind_err (convert_int_to_bits v 8 False) (\<lambda>b. Inr (self\<lparr>ship_type := b\<rparr>)))"

definition dimension_setter :: "AISMsgType5 \<Rightarrow> ShipDimension \<Rightarrow> error + AISMsgType5" where
  "dimension_setter self d =
     bind_err (ShipDimension_bits d) (\<lambda>b. Inr (self\<lparr>dimension := b\<rparr>))"

definition eta_setter :: "AISMsgType5 \<Rightarrow> ShipEta \<Rightarrow> error + AISMsgType5" where
  "eta_setter self e = bind_err (ShipEta_bits e) (\<lambda>b. Inr (self\<lparr>eta := b\<rparr>))"

text \<open>
  The draught is a Python float; the model computes on the real number it denotes, so the
  rounding of the product \<^verbatim>\<open>value * 10\<close> to a binary float is not modelled.
\<close>

definition draught_bits :: "real \<Rightarrow> error + string" where
  "draught_bits v =
     (if v < 0 then Inl (ValueError Draught)
      else let v' = (if v > 25.5 then 25.5 else v)
           in convert_int_to_bits (py_int (v' * 10)) 8 False)"

definition draught_setter :: "AISMsgType5 \<Rightarrow> real \<Rightarrow> error + AISMsgType5" where
  "draught_setter self v = bind_err (draught_bits v) (\<lambda>b. Inr (self\<lparr>draught := b\<rparr>))"

definition destination_setter :: "AISMsgType5 \<Rightarrow> string \<Rightarrow> error + AISMsgType5" where
  "destination_setter self v =
     bind_err (fixed_text Destination 20 v) (\<lambda>t.
     bind_err (ascii6_bits t []) (\<lambda>bits. Inr (self\<lparr>destination := bits\<rparr>)))"

text \<open>
  The object before \<^verbatim>\<open>__init__\<close> has assigned anything: no attribute exists yet, and the
  constructor reads none before setting it.
\<close>

definition blank :: AISMsgType5 where
  "blank = \<lparr>repeat_indicator = [], mmsi = [], fill_bits = 0, msg_type = [], ais_version = [],
     imo = [], call_sign = [], ship_name = [], ship_type = [], dimension = [],
     pos_fix_type = [], eta = [], draught = [], destination = [], dte = [], spare = []\<rparr>"

definition AISMsg_init :: "AISMsgType5 \<Rightarrow> int \<Rightarrow> error + AISMsgType5" where
  "AISMsg_init self mmsi_v =
     bind_err (convert_int_to_bits 0 2 False) (\<lambda>ri.
     bind_err (mmsi_setter (self\<lparr>repeat_indicator := ri\<rparr>) mmsi_v) (\<lambda>self.
     Inr (self\<lparr>fill_bits := 0\<rparr>)))"

definition AISMsgType5_init ::
  "int \<Rightarrow> int \<Rightarrow> string \<Rightarrow> string \<Rightarrow> int \<Rightarrow> ShipDimension \<Rightarrow> ShipEta \<Rightarrow> real \<Rightarrow> string
     \<Rightarrow> error + AISMsgType5" where
  "AISMsgType5_init mmsi_v imo_v call_sign_v ship_name_v ship_type_v dimension_v eta_v
       draught_v destination_v =
     bind_err (AISMsg_init blank mmsi_v) (\<lambda>self.
     bind_err (convert_int_to_bits 5 6 False) (\<lambda>mt.
     bind_err (convert_int_to_bits 2 2 False) (\<lambda>av.
     bind_err (imo_setter (self\<lparr>msg_type := mt, ais_version := av\<rparr>) imo_v) (\<lambda>self.
     bind_err (call_sign_setter self call_sign_v) (\<lambda>self.
     bind_err (ship_name_setter self ship_name_v) (\<lambda>self.
     bind_err (ship_type_setter self ship_type_v) (\<lambda>self.
     bind_err (dimension_setter self dimension_v) (\<lambda>self.
     bind_err (convert_int_to_bits 1 4 False) (\<lambda>pf.
     bind_err (eta_setter (self\<lparr>pos_fix_type := pf\<rparr>) eta_v) (\<lambda>self.
     bind_err (draught_setter self draught_v) (\<lambda>self.
     bind_err (destination_setter self destination_v) (\<lambda>self.
     bind_err (convert_int_to_bits 0 1 False) (\<lambda>d.
     bind_err (convert_int_to_bits 0 1 False) (\<lambda>sp.
     Inr (self\<lparr>dte := d, spare := sp\<rparr>)))))))))))))))"

definition payload_bits5 :: "AISMsgType5 \<Rightarrow> string" where
  "payload_bits5 self =
     msg_type self @ repeat_indicator self @ mmsi self @ ais_version self @ imo self
       @ call_sign self @ ship_name self @ ship_type self @ dimension self
       @ pos_fix_type self @ eta self @ draught self @ destination self @ dte self
       @ spare self"

definition encode5 :: "AISMsgType5 \<Rightarrow> string \<times> AISMsgType5" where
  "encode5 self =
     (case encode_bits (payload_bits5 self) (fill_bits self) of
        (payload, fb) \<Rightarrow> (payload, self\<lparr>fill_bits := fb\<rparr>))"

subsection \<open>AISMsgPayloadType1: position report class A\<close>

record AISMsgPayloadType1 = "(int, int) AISMsg" +
  nav_status :: int
  speed :: real
  lon :: real
  lat :: real
  course :: real
  true_heading :: int
  timestamp :: int

text \<open>
  Modelled from the spec: the enumerations \<^verbatim>\<open>FieldBitsCountEnum\<close> and
  \<^verbatim>\<open>AISMsgType1ConstsEnum\<close> of \<^verbatim>\<open>constants\<close> are not among the sources. Section 4.2
  declares 28 bits for \<open>lon\<close> and 27 for \<open>lat\<close>, section 3 a position report of 168
  bits; the other widths are those of message 1 in ITU-R M.1371. The values of the constants
  are those of the payload example in the docstring of the class,
  \<^verbatim>\<open>133m@ogP00PD;88MD5MTDww@2D7k\<close>.
\<close>

definition FieldBitsCountEnum :: "(string \<times> nat) list" where
  "FieldBitsCountEnum =
     [(''msg_type'', 6), (''repeat_indicator'', 2), (''mmsi'', 30), (''nav_status'', 4),
      (''rot'', 8), (''speed'', 10), (''pos_accuracy'', 1), (''lon'', 28), (''lat'', 27),
      (''course'', 12), (''true_heading'', 9), (''timestamp'', 6), (''maneuver'', 2),
      (''spare_type_1'', 3), (''raim'', 1), (''radio_status'', 19)]"

definition AISMsgType1ConstsEnum :: "(string \<times> int) list" where
  "AISMsgType1ConstsEnum =
     [(''msg_type'', 1), (''rot'', 128), (''pos_accuracy'', 1), (''maneuver'', 0),
      (''spare_type_1'', 0), (''raim'', 1), (''radio_status'', 82419)]"

text \<open>A dictionary is an association list in insertion order; a missing key raises.\<close>

definition lookup :: "(string \<times> 'a) list \<Rightarrow> string \<Rightarrow> error + 'a" where
  "lookup d k = (case map_of d k of None \<Rightarrow> Inl KeyError | Some v \<Rightarrow> Inr v)"

fun dict_map ::
  "(string \<Rightarrow> 'a \<Rightarrow> error + 'b) \<Rightarrow> (string \<times> 'a) list \<Rightarrow> error + (string \<times> 'b) list" where
  "dict_map f [] = Inr []"
| "dict_map f ((k, v) # kvs) =
     bind_err (f k v) (\<lambda>b.
     bind_err (dict_map f kvs) (\<lambda>rest. Inr ((k, b) # rest)))"

definition constants_bits :: "error + (string \<times> string) list" where
  "constants_bits =
     dict_map (\<lambda>name v. bind_err (lookup FieldBitsCountEnum name)
                 (\<lambda>bits_count. convert_int_to_bits v bits_count False))
       AISMsgType1ConstsEnum"

text \<open>
  The values of \<^verbatim>\<open>self.dict(exclude={'fill_bits'})\<close>: integers, and floats, which the
  model takes as the real numbers they denote.
\<close>

datatype num = PyInt int | PyFloat real

definition dict_without_fill_bits :: "AISMsgPayloadType1 \<Rightarrow> (string \<times> num) list" where
  "dict_without_fill_bits self =
     [(''repeat_indicator'', PyInt (repeat_indicator self)), (''mmsi'', PyInt (mmsi self)),
      (''nav_status'', PyInt (nav_status self)), (''speed'', PyFloat (speed self)),
      (''lon'', PyFloat (lon self)), (''lat'', PyFloat (lat self)),
      (''course'', PyFloat (course self)), (''true_heading'', PyInt (true_heading self)),
      (''timestamp'', PyInt (timestamp self))]"

text \<open>\<^verbatim>\<open>int(value * k)\<close> for an integer constant \<open>k\<close>.\<close>

fun int_times :: "num \<Rightarrow> int \<Rightarrow> int" where
  "int_times (PyInt i) k = i * k"
| "int_times (PyFloat x) k = py_int (x * real_of_int k)"

text \<open>The body of the loop of \<^verbatim>\<open>_fields_to_bits\<close> for one field.\<close>

definition field_to_bits :: "string \<Rightarrow> num \<Rightarrow> error + string" where
  "field_to_bits field v =
     bind_err (lookup FieldBitsCountEnum field) (\<lambda>bits_count.
       if field \<in> set [''lon'', ''lat'']
       then convert_int_to_bits (int_times v 600000) bits_count True
       else if field \<in> set [''course'', ''speed'']
       then convert_int_to_bits (int_times v 10) bits_count False
       else (case v of PyInt i \<Rightarrow> convert_int_to_bits i bits_count False
                     | PyFloat x \<Rightarrow> Inl TypeError))"

definition fields_to_bits :: "AISMsgPayloadType1 \<Rightarrow> error + (string \<times> string) list" where
  "fields_to_bits self = dict_map field_to_bits (dict_without_fill_bits self)"

text \<open>The list of dictionary reads of \<open>payload_bits\<close>, in order, then the join.\<close>

fun lookups :: "(bool \<times> string) list \<Rightarrow> (string \<times> string) list \<Rightarrow> (string \<times> string) list
    \<Rightarrow> error + string list" where
  "lookups [] cs fs = Inr []"
| "lookups ((is_const, k) # ks) cs fs =
     bind_err (lookup (if is_const then cs else fs) k) (\<lambda>b.
     bind_err (lookups ks cs fs) (\<lambda>rest. Inr (b # rest)))"

definition payload_bits1 :: "AISMsgPayloadType1 \<Rightarrow> error + string" where
  "payload_bits1 self =
     bind_err constants_bits (\<lambda>cs.
     bind_err (fields_to_bits self) (\<lambda>fs.
     bind_err (lookups
       [(True, ''msg_type''), (False, ''repeat_indicator''), (False, ''mmsi''),
        (False, ''nav_status''), (True, ''rot''), (False, ''speed''),
        (True, ''pos_accuracy''), (False, ''lon''), (False, ''lat''), (False, ''course''),
        (False, ''true_heading''), (False, ''timestamp''), (True, ''maneuver''),
        (True, ''spare_type_1''), (True, ''raim''), (True, ''radio_status'')]
       cs fs) (\<lambda>payload_fields_list.
     Inr (concat payload_fields_list))))"

definition encode1 :: "AISMsgPayloadType1 \<Rightarrow> error + string \<times> AISMsgPayloadType1" where
  "encode1 self =
     bind_err (payload_bits1 self) (\<lambda>bits.
       case encode_bits bits (fill_bits self) of
         (payload, fb) \<Rightarrow> Inr (payload, self\<lparr>fill_bits := fb\<rparr>))"

section \<open>The sentence framer: NMEAMessage\<close>

datatype ais_payload = Type1 AISMsgPayloadType1 | Type5 AISMsgType5

fun payload_encode :: "ais_payload \<Rightarrow> error + string \<times> ais_payload" where
  "payload_encode (Type1 p) = bind_err (encode1 p) (\<lambda>(s, p'). Inr (s, Type1 p'))"
| "payload_encode (Type5 p) = (case encode5 p of (s, p') \<Rightarrow> Inr (s, Type5 p'))"

fun payload_fill_bits :: "ais_payload \<Rightarrow> int" where
  "payload_fill_bits (Type1 p) = fill_bits p"
| "payload_fill_bits (Type5 p) = fill_bits p"

text \<open>
  \<open>payload\<close> is the object passed to the constructor, as \<open>encode\<close> has left it: the
  message and its caller share it.
\<close>

record NMEAMessage =
  nmea_msg_type :: string
  payload :: ais_payload
  payload_parts :: "string list"
  number_of_sentences :: nat
  ais_channel :: string

definition NMEAMessage_init :: "ais_payload \<Rightarrow> error + NMEAMessage" where
  "NMEAMessage_init p =
     bind_err (payload_encode p) (\<lambda>(armored, p').
       let parts = wrap armored 60 in
       Inr \<lparr>nmea_msg_type = ''AIVDM'', payload = p', payload_parts = parts,
            number_of_sentences = length parts, ais_channel = ''A''\<rparr>)"

text \<open>The text between the exclamation mark and the star, for one sentence.\<close>

definition sentence_data :: "NMEAMessage \<Rightarrow> nat \<Rightarrow> string \<Rightarrow> string" where
  "sentence_data self sentence_number sentence_payload =
     (let fb = (if sentence_number = number_of_sentences self
                then payload_fill_bits (payload self) else 0);
          sequential_msg_id = (if number_of_sentences self > 1 then ''1'' else [])
      in nmea_msg_type self @ '','' @ str_nat (number_of_sentences self) @ '',''
           @ str_nat sentence_number @ '','' @ sequential_msg_id @ '',''
           @ ais_channel self @ '','' @ sentence_payload @ '','' @ str_int fb)"

fun sentences_loop :: "NMEAMessage \<Rightarrow> nat \<Rightarrow> string list \<Rightarrow> string list \<Rightarrow> string list" where
  "sentences_loop self sentence_number [] nmea_sentences = nmea_sentences"
| "sentences_loop self sentence_number (sentence_payload # rest) nmea_sentences =
     (let d = sentence_data self sentence_number sentence_payload in
      sentences_loop self (Suc sentence_number) rest
        (nmea_sentences @ [''!'' @ d @ ''*'' @ nmea_checksum d @ [CHR 0x0D, CHR 0x0A]]))"

definition get_sentences :: "NMEAMessage \<Rightarrow> string list" where
  "get_sentences self = sentences_loop self 1 (payload_parts self) []"

section \<open>Notions used by the statements\<close>

text \<open>
  The object a successful \<^verbatim>\<open>AISMsgType5.__init__\<close> leaves, from the nine bit fields its
  setters computed.
\<close>

definition init5_shape ::
  "string \<Rightarrow> string \<Rightarrow> string \<Rightarrow> string \<Rightarrow> string \<Rightarrow> string \<Rightarrow> string \<Rightarrow> string \<Rightarrow> string
     \<Rightarrow> AISMsgType5" where
  "init5_shape mmb imb csb snb stb db eb drb deb =
     \<lparr>repeat_indicator = ''00'', mmsi = mmb, fill_bits = 0, msg_type = ''000101'',
      ais_version = ''10'', imo = imb, call_sign = csb, ship_name = snb, ship_type = stb,
      dimension = db, pos_fix_type = ''0001'', eta = eb, draught = drb, destination = deb,
      dte = ''0'', spare = ''0''\<rparr>"

text \<open>
  The sizes of the fifteen bit fields of a static and voyage message.
\<close>

definition well_sized :: "AISMsgType5 \<Rightarrow> bool" where
  "well_sized m \<longleftrightarrow>
     length (msg_type m) = 6 \<and> length (repeat_indicator m) = 2 \<and> length (mmsi m) = 30 \<and>
     length (ais_version m) = 2 \<and> length (imo m) = 30 \<and> length (call_sign m) = 42 \<and>
     length (ship_name m) = 120 \<and> length (ship_type m) = 8 \<and> length (dimension m) = 30 \<and>
     length (pos_fix_type m) = 4 \<and> length (eta m) = 20 \<and> length (draught m) = 8 \<and>
     length (destination m) = 120 \<and> length (dte m) = 1 \<and> length (spare m) = 1"

text \<open>
  The sample of the module's \<^verbatim>\<open>__main__\<close> block: the static and voyage data of the
  commented-out call, and the position report that is built there.
\<close>

definition dimension_example :: ShipDimension where
  "dimension_example = \<lparr>to_bow = 225, to_stern = 70, to_port = 1, to_starboard = 31\<rparr>"

definition eta_example :: ShipEta where
  "eta_example = \<lparr>month = 5, day = 15, hour = 14, minute = 0\<rparr>"

definition msg5_example :: AISMsgType5 where
  "msg5_example =
     \<lparr>repeat_indicator = ''00'', mmsi = ''001100001111010101000011011110'', fill_bits = 0,
      msg_type = ''000101'', ais_version = ''10'', imo = ''000000100010110110000010111110'',
      call_sign = ''110011000110001111000110111000100000100000'',
      ship_name = ''000101010110000101010010100000000100001001000001000100000101001101100000100000100000100000100000100000100000100000100000'',
      ship_type = ''01000110'', dimension = ''011100001001000110000001011111'',
      pos_fix_type = ''0001'', eta = ''01010111101110000000'', draught = ''01111010'',
      destination = ''001110000101010111100000011001001111010010001011100000100000100000100000100000100000100000100000100000100000100000100000'',
      dte = ''0'', spare = ''0''\<rparr>"

definition msg1_example :: AISMsgPayloadType1 where
  "msg1_example =
     \<lparr>repeat_indicator = 0, mmsi = 205344990, fill_bits = 0, nav_status = 15, speed = 0,
      lon = 4.407046666667, lat = 51.229636666667, course = 110.7, true_heading = 511,
      timestamp = 40\<rparr>"


text \<open>
  Reading a sentence back: the body is the text after the first character up to the first
  star, and its fields are the parts between the commas (Python's \<^verbatim>\<open>str.split\<close>).
\<close>

fun split_on :: "char \<Rightarrow> string \<Rightarrow> string list" where
  "split_on sep [] = [[]]"
| "split_on sep (c # cs) =
     (if c = sep then [] # split_on sep cs
      else (case split_on sep cs of [] \<Rightarrow> [[c]] | p # ps \<Rightarrow> (c # p) # ps))"

definition sentence_body :: "string \<Rightarrow> string" where
  "sentence_body s = takeWhile (\<lambda>c. c \<noteq> CHR ''*'') (tl s)"

definition sentence_fields :: "string \<Rightarrow> string list" where
  "sentence_fields s = split_on CHR '','' (sentence_body s)"

text \<open>The \<open>payload_bits\<close> property of either payload class.\<close>

fun payload_bits_of :: "ais_payload \<Rightarrow> error + string" where
  "payload_bits_of (Type1 p) = payload_bits1 p"
| "payload_bits_of (Type5 p) = Inr (payload_bits5 p)"

text \<open>
  The characters of an armored payload: codes 48 to 87 and 96 to 119.
\<close>

definition armor_char :: "char \<Rightarrow> bool" where
  "armor_char c \<longleftrightarrow> 48 \<le> (of_char c :: int) \<and> (of_char c :: int) < 120
     \<and> \<not> (88 \<le> (of_char c :: int) \<and> (of_char c :: int) < 96)"

text \<open>The messages that \<^verbatim>\<open>NMEAMessage\<close> builds from the two samples.\<close>

definition nmea5_example :: NMEAMessage where
  "nmea5_example =
     \<lparr>nmea_msg_type = ''AIVDM'', payload = Type5 (msg5_example\<lparr>fill_bits := 2\<rparr>),
      payload_parts = [''533m@o`2;H;s<HtKR20EHE:0@T4@Dn2222222216L961O5Gf0NSQEp6ClRp8'',
                       ''88888888880''],
      number_of_sentences = 2, ais_channel = ''A''\<rparr>"

definition nmea1_example :: NMEAMessage where
  "nmea1_example =
     \<lparr>nmea_msg_type = ''AIVDM'', payload = Type1 msg1_example,
      payload_parts = [''133m@ogP00PD;88MD5MTDww@2D7k''],
      number_of_sentences = 1, ais_channel = ''A''\<rparr>"

section \<open>Properties of the primitives\<close>

lemma length_low_bits [simp]: "length (low_bits w v) = w"
  by (induction w arbitrary: v) auto

lemma convert_int_to_bits_length:
  "convert_int_to_bits num w s = Inr bs \<Longrightarrow> length bs = w"
  by (auto simp: convert_int_to_bits_def split: if_splits)

lemma convert_int_to_bits_unsigned:
  "0 \<le> num \<Longrightarrow> num < 2 ^ w \<Longrightarrow> convert_int_to_bits num w False = Inr (low_bits w num)"
  by (simp add: convert_int_to_bits_def)

lemma bind_err_Inr_iff:
  "bind_err x f = Inr y \<longleftrightarrow> (\<exists>a. x = Inr a \<and> f a = Inr y)"
  by (cases x) auto


lemma pad_item_eq:
  "pad_item item fb = (item @ replicate (6 - length item) CHR ''0'', fb + int (6 - length item))"
proof (induction item fb rule: pad_item.induct)
  case (1 item fb)
  show ?case
  proof (cases "length item < 6")
    case True
    then have "6 - length item = Suc (6 - Suc (length item))" by simp
    with True 1 show ?thesis
      by (subst pad_item.simps) (simp add: replicate_app_Cons_same)
  next
    case False
    then show ?thesis by (subst pad_item.simps) simp
  qed
qed

lemma encode_loop_length:
  "length (fst (encode_loop items acc fb)) = length acc + length items"
  by (induction items arbitrary: acc fb) (auto simp: pad_item_eq Let_def)

lemma encode_loop_fill:
  "snd (encode_loop items acc fb) = fb + (\<Sum>item\<leftarrow>items. int (6 - length item))"
  by (induction items arbitrary: acc fb) (auto simp: pad_item_eq Let_def)

lemma wrap_Nil [simp]: "wrap [] n = []"
  by (simp add: wrap.simps)

lemma concat_wrap: "0 < n \<Longrightarrow> concat (wrap xs n) = xs"
proof (induction xs n rule: wrap.induct)
  case (1 t width)
  then show ?case by (subst wrap.simps) auto
qed

lemma length_wrap: "0 < n \<Longrightarrow> length (wrap xs n) = (length xs + (n - 1)) div n"
proof (induction xs n rule: wrap.induct)
  case (1 t width)
  show ?case
  proof (cases "t = []")
    case True
    then show ?thesis using 1(2) by simp
  next
    case False
    have w: "wrap t width = take width t # wrap (drop width t) width"
      using False 1(2) by (subst wrap.simps) simp
    have ih: "length (wrap (drop width t) width) = (length (drop width t) + (width - 1)) div width"
      using 1(1) False 1(2) by blast
    show ?thesis
    proof (cases "width \<le> length t")
      case True
      define k where "k = length t - width"
      have lt: "length t = k + width" and ld: "length (drop width t) = k"
        using True by (simp_all add: k_def)
      have "k + width + (width - 1) = (k + (width - 1)) + width" by linarith
      then have "(k + width + (width - 1)) div width = Suc ((k + (width - 1)) div width)"
        using 1(2) by (simp only: div_add_self2)
      then show ?thesis unfolding w lt using ih ld by simp
    next
      case nle: False
      then have d: "drop width t = []" by simp
      have pos: "0 < length t" using False by simp
      have "(length t + (width - 1)) div width = 1"
      proof (rule div_nat_eqI)
        show "width * 1 \<le> length t + (width - 1)" using pos by linarith
        show "length t + (width - 1) < width * Suc 1" using nle by simp
      qed
      then show ?thesis unfolding w d by simp
    qed
  qed
qed

lemma wrap_chunk_le: "c \<in> set (wrap xs n) \<Longrightarrow> length c \<le> n \<and> c \<noteq> []"
proof (induction xs n arbitrary: c rule: wrap.induct)
  case (1 t width)
  have ne: "\<not> (width = 0 \<or> t = [])"
    using 1(2) by (subst (asm) wrap.simps) (simp split: if_splits)
  then have w: "wrap t width = take width t # wrap (drop width t) width"
    by (subst wrap.simps) simp
  from 1(2) have "c = take width t \<or> c \<in> set (wrap (drop width t) width)"
    unfolding w by simp
  then show ?case
  proof
    assume "c = take width t"
    then show ?thesis using ne by simp
  next
    assume "c \<in> set (wrap (drop width t) width)"
    then show ?thesis using 1(1) ne by blast
  qed
qed

lemma wrap_fill_sum:
  "0 < n \<Longrightarrow> (\<Sum>item\<leftarrow>wrap xs n. int (n - length item)) = int ((n - length xs mod n) mod n)"
proof (induction xs n rule: wrap.induct)
  case (1 t width)
  show ?case
  proof (cases "t = []")
    case True
    then show ?thesis by simp
  next
    case False
    have w: "wrap t width = take width t # wrap (drop width t) width"
      using False 1(2) by (subst wrap.simps) simp
    have ih: "(\<Sum>item\<leftarrow>wrap (drop width t) width. int (width - length item))
        = int ((width - length (drop width t) mod width) mod width)"
      using 1(1) False 1(2) by blast
    show ?thesis
    proof (cases "width \<le> length t")
      case True
      then have m: "(length t - width) mod width = length t mod width"
        by (simp add: le_mod_geq)
      have "length (take width t) = width" using True by simp
      then show ?thesis unfolding w using ih m by simp
    next
      case nle: False
      then have d: "drop width t = []" and tk: "take width t = t" by simp_all
      have "length t mod width = length t" using nle by simp
      moreover have "(width - length t) mod width = width - length t"
        using nle False by simp
      ultimately show ?thesis unfolding w d tk by simp
    qed
  qed
qed

lemma encode_bits_length:
  "length (fst (encode_bits bits fb)) = (length bits + 5) div 6"
  by (simp add: encode_bits_def encode_loop_length length_wrap)

lemma encode_bits_fill:
  "snd (encode_bits bits fb) = fb + int ((6 - length bits mod 6) mod 6)"
  by (simp add: encode_bits_def encode_loop_fill wrap_fill_sum)

lemma low_bits_set: "set (low_bits w v) \<subseteq> {CHR ''0'', CHR ''1''}"
  by (induction w arbitrary: v) auto

lemma convert_int_to_bits_set:
  "convert_int_to_bits num w s = Inr bs \<Longrightarrow> set bs \<subseteq> {CHR ''0'', CHR ''1''}"
  using low_bits_set by (auto simp: convert_int_to_bits_def split: if_splits)

lemma ascii6_code_range:
  "convert_ascii_char_to_ascii6_code c = Inr k \<Longrightarrow> 0 \<le> k \<and> k < 64"
  by (auto simp: convert_ascii_char_to_ascii6_code_def Let_def split: if_splits)

lemma ascii6_code_Inr_iff:
  "(\<exists>k. convert_ascii_char_to_ascii6_code c = Inr k) \<longleftrightarrow> 32 \<le> (of_char c :: int) \<and> (of_char c :: int) < 96"
  by (auto simp: convert_ascii_char_to_ascii6_code_def Let_def)

lemma ascii6_bits_length:
  "ascii6_bits cs bits = Inr r \<Longrightarrow> length r = length bits + 6 * length cs"
proof (induction cs arbitrary: bits)
  case Nil
  then show ?case by simp
next
  case (Cons c cs)
  from Cons.prems obtain k six where
    k: "convert_ascii_char_to_ascii6_code c = Inr k" and
    six: "convert_int_to_bits k 6 False = Inr six" and
    rest: "ascii6_bits cs (bits @ six) = Inr r"
    by (auto simp: bind_err_Inr_iff)
  from Cons.IH [OF rest] convert_int_to_bits_length [OF six] show ?case by simp
qed

lemma ascii6_bits_set:
  "ascii6_bits cs bits = Inr r \<Longrightarrow> set bits \<subseteq> {CHR ''0'', CHR ''1''}
     \<Longrightarrow> set r \<subseteq> {CHR ''0'', CHR ''1''}"
proof (induction cs arbitrary: bits)
  case Nil
  then show ?case by simp
next
  case (Cons c cs)
  from Cons.prems(1) obtain k six where
    six: "convert_int_to_bits k 6 False = Inr six" and
    rest: "ascii6_bits cs (bits @ six) = Inr r"
    by (auto simp: bind_err_Inr_iff)
  have "set (bits @ six) \<subseteq> {CHR ''0'', CHR ''1''}"
    using Cons.prems(2) convert_int_to_bits_set [OF six] by simp
  from Cons.IH [OF rest this] show ?case .
qed

lemma ascii6_bits_Inr_iff:
  "(\<exists>r. ascii6_bits cs bits = Inr r) \<longleftrightarrow>
     (\<forall>c \<in> set cs. 32 \<le> (of_char c :: int) \<and> (of_char c :: int) < 96)"
proof (induction cs arbitrary: bits)
  case Nil
  then show ?case by simp
next
  case (Cons c cs)
  show ?case
  proof (cases "convert_ascii_char_to_ascii6_code c")
    case (Inl e)
    then have "\<not> (32 \<le> (of_char c :: int) \<and> (of_char c :: int) < 96)"
      using ascii6_code_Inr_iff [of c] by simp
    with Inl show ?thesis by auto
  next
    case (Inr k)
    then have r: "32 \<le> (of_char c :: int) \<and> (of_char c :: int) < 96"
      using ascii6_code_Inr_iff [of c] by blast
    from ascii6_code_range [OF Inr]
    have "convert_int_to_bits k 6 False = Inr (low_bits 6 k)"
      by (intro convert_int_to_bits_unsigned) simp_all
    with Inr r Cons.IH [of "bits @ low_bits 6 k"] show ?thesis by simp
  qed
qed

lemma fixed_text_length: "fixed_text a n t = Inr r \<Longrightarrow> length r = n"
  by (auto simp: fixed_text_def add_padding_def split: if_splits)

lemma call_sign_bits_length: "call_sign_bits v = Inr b \<Longrightarrow> length b = 42"
  by (auto simp: call_sign_bits_def bind_err_Inr_iff dest!: fixed_text_length ascii6_bits_length)

lemma ShipDimension_bits_length: "ShipDimension_bits d = Inr b \<Longrightarrow> length b = 30"
  by (auto simp: ShipDimension_bits_def bind_err_Inr_iff dest!: convert_int_to_bits_length)

lemma ShipEta_bits_length: "ShipEta_bits e = Inr b \<Longrightarrow> length b = 20"
  by (auto simp: ShipEta_bits_def bind_err_Inr_iff dest!: convert_int_to_bits_length)

lemma draught_bits_length: "draught_bits v = Inr b \<Longrightarrow> length b = 8"
  by (auto simp: draught_bits_def Let_def dest!: convert_int_to_bits_length split: if_splits)

section \<open>Properties of the message classes\<close>

lemma const_bits:
  "convert_int_to_bits 0 2 False = Inr ''00''"
  "convert_int_to_bits 5 6 False = Inr ''000101''"
  "convert_int_to_bits 2 2 False = Inr ''10''"
  "convert_int_to_bits 1 4 False = Inr ''0001''"
  "convert_int_to_bits 0 1 False = Inr ''0''"
  by code_simp+

lemma call_sign_setter_eq:
  "call_sign_setter self v = bind_err (call_sign_bits v) (\<lambda>bits. Inr (self\<lparr>call_sign := bits\<rparr>))"
proof (cases "call_sign_bits v")
  case (Inl e)
  then show ?thesis by (simp add: call_sign_setter_def)
next
  case (Inr bits)
  from call_sign_bits_length [OF Inr] Inr show ?thesis
    by (simp add: call_sign_setter_def)
qed

lemma init5_Inr:
  assumes "AISMsgType5_init mm im cs sn st d e dr de = Inr m"
  shows "\<exists>mmb imb csb snt snb stb db eb drb det deb.
     convert_int_to_bits mm 30 False = Inr mmb \<and>
     convert_int_to_bits im 30 False = Inr imb \<and>
     call_sign_bits cs = Inr csb \<and>
     fixed_text Ship_name 20 sn = Inr snt \<and> ascii6_bits snt [] = Inr snb \<and>
     1 \<le> st \<and> st < 100 \<and> convert_int_to_bits st 8 False = Inr stb \<and>
     ShipDimension_bits d = Inr db \<and>
     ShipEta_bits e = Inr eb \<and>
     draught_bits dr = Inr drb \<and>
     fixed_text Destination 20 de = Inr det \<and> ascii6_bits det [] = Inr deb \<and>
     m = init5_shape mmb imb csb snb stb db eb drb deb"
  using assms
  unfolding AISMsgType5_init_def AISMsg_init_def mmsi_setter_def imo_setter_def
    call_sign_setter_eq ship_name_setter_def ship_type_setter_def dimension_setter_def
    eta_setter_def draught_setter_def destination_setter_def const_bits blank_def init5_shape_def
  by (auto simp: bind_err_Inr_iff split: if_splits)


lemma constants_bits_eq:
  "constants_bits = Inr [(''msg_type'', ''000001''), (''rot'', ''10000000''),
     (''pos_accuracy'', ''1''), (''maneuver'', ''00''), (''spare_type_1'', ''000''),
     (''raim'', ''1''), (''radio_status'', ''0010100000111110011'')]"
  by code_simp

lemma field_to_bits_length:
  "field_to_bits f v = Inr b \<Longrightarrow> lookup FieldBitsCountEnum f = Inr (length b)"
  by (auto simp: field_to_bits_def bind_err_Inr_iff dest!: convert_int_to_bits_length
      split: if_splits num.splits)

lemma lookup_widths:
  "lookup FieldBitsCountEnum ''repeat_indicator'' = Inr 2"
  "lookup FieldBitsCountEnum ''mmsi'' = Inr 30"
  "lookup FieldBitsCountEnum ''nav_status'' = Inr 4"
  "lookup FieldBitsCountEnum ''speed'' = Inr 10"
  "lookup FieldBitsCountEnum ''lon'' = Inr 28"
  "lookup FieldBitsCountEnum ''lat'' = Inr 27"
  "lookup FieldBitsCountEnum ''course'' = Inr 12"
  "lookup FieldBitsCountEnum ''true_heading'' = Inr 9"
  "lookup FieldBitsCountEnum ''timestamp'' = Inr 6"
  by code_simp+

lemma fields_to_bits_Inr:
  assumes "fields_to_bits self = Inr fs"
  shows "\<exists>b1 b2 b3 b4 b5 b6 b7 b8 b9.
    fs = [(''repeat_indicator'', b1), (''mmsi'', b2), (''nav_status'', b3), (''speed'', b4),
          (''lon'', b5), (''lat'', b6), (''course'', b7), (''true_heading'', b8),
          (''timestamp'', b9)] \<and>
    field_to_bits ''repeat_indicator'' (PyInt (repeat_indicator self)) = Inr b1 \<and>
    field_to_bits ''mmsi'' (PyInt (mmsi self)) = Inr b2 \<and>
    field_to_bits ''nav_status'' (PyInt (nav_status self)) = Inr b3 \<and>
    field_to_bits ''speed'' (PyFloat (speed self)) = Inr b4 \<and>
    field_to_bits ''lon'' (PyFloat (lon self)) = Inr b5 \<and>
    field_to_bits ''lat'' (PyFloat (lat self)) = Inr b6 \<and>
    field_to_bits ''course'' (PyFloat (course self)) = Inr b7 \<and>
    field_to_bits ''true_heading'' (PyInt (true_heading self)) = Inr b8 \<and>
    field_to_bits ''timestamp'' (PyInt (timestamp self)) = Inr b9"
  using assms unfolding fields_to_bits_def dict_without_fill_bits_def
  by (auto simp: bind_err_Inr_iff)

lemma payload_bits1_length:
  assumes "payload_bits1 self = Inr bits"
  shows "length bits = 168"
proof -
  from assms obtain fs pl where
    fs: "fields_to_bits self = Inr fs" and
    pl: "lookups
       [(True, ''msg_type''), (False, ''repeat_indicator''), (False, ''mmsi''),
        (False, ''nav_status''), (True, ''rot''), (False, ''speed''),
        (True, ''pos_accuracy''), (False, ''lon''), (False, ''lat''), (False, ''course''),
        (False, ''true_heading''), (False, ''timestamp''), (True, ''maneuver''),
        (True, ''spare_type_1''), (True, ''raim''), (True, ''radio_status'')]
       [(''msg_type'', ''000001''), (''rot'', ''10000000''),
     (''pos_accuracy'', ''1''), (''maneuver'', ''00''), (''spare_type_1'', ''000''),
     (''raim'', ''1''), (''radio_status'', ''0010100000111110011'')] fs = Inr pl" and
    bits: "bits = concat pl"
    unfolding payload_bits1_def constants_bits_eq by (auto simp: bind_err_Inr_iff)
  from fields_to_bits_Inr [OF fs] obtain b1 b2 b3 b4 b5 b6 b7 b8 b9 where
    fs_eq: "fs = [(''repeat_indicator'', b1), (''mmsi'', b2), (''nav_status'', b3), (''speed'', b4),
          (''lon'', b5), (''lat'', b6), (''course'', b7), (''true_heading'', b8),
          (''timestamp'', b9)]" and
    f: "field_to_bits ''repeat_indicator'' (PyInt (repeat_indicator self)) = Inr b1"
    "field_to_bits ''mmsi'' (PyInt (mmsi self)) = Inr b2"
    "field_to_bits ''nav_status'' (PyInt (nav_status self)) = Inr b3"
    "field_to_bits ''speed'' (PyFloat (speed self)) = Inr b4"
    "field_to_bits ''lon'' (PyFloat (lon self)) = Inr b5"
    "field_to_bits ''lat'' (PyFloat (lat self)) = Inr b6"
    "field_to_bits ''course'' (PyFloat (course self)) = Inr b7"
    "field_to_bits ''true_heading'' (PyInt (true_heading self)) = Inr b8"
    "field_to_bits ''timestamp'' (PyInt (timestamp self)) = Inr b9"
    by blast
  have len: "length b1 = 2" "length b2 = 30" "length b3 = 4" "length b4 = 10" "length b5 = 28"
    "length b6 = 27" "length b7 = 12" "length b8 = 9" "length b9 = 6"
    using f [THEN field_to_bits_length] by (simp_all add: lookup_widths)
  have "pl = [''000001'', b1, b2, b3, ''10000000'', b4, ''1'', b5, b6, b7, b8, b9, ''00'', ''000'',
     ''1'', ''0010100000111110011'']"
    using pl unfolding fs_eq by (simp add: lookup_def)
  then show ?thesis using len bits by simp
qed

lemma init5_example:
  "AISMsgType5_init 205344990 9134270 ''3FOF8'' ''EVER DIADEM'' 70 dimension_example
     eta_example 12.2 ''NEW YORK'' = Inr msg5_example"
  by code_simp

lemma encode5_length: "length (fst (encode5 m)) = (length (payload_bits5 m) + 5) div 6"
  by (simp add: encode5_def split_beta encode_bits_length)

lemma encode5_fill:
  "fill_bits (snd (encode5 m)) = fill_bits m + int ((6 - length (payload_bits5 m) mod 6) mod 6)"
  by (simp add: encode5_def split_beta encode_bits_fill)

lemma encode5_payload_bits: "payload_bits5 (snd (encode5 m)) = payload_bits5 m"
  by (simp add: encode5_def split_beta payload_bits5_def)

lemma init5_payload_length:
  assumes "AISMsgType5_init mm im cs sn st d e dr de = Inr m"
  shows "length (payload_bits5 m) = 424"
proof -
  from init5_Inr [OF assms] obtain mmb imb csb snt snb stb db eb drb det deb where
    h: "convert_int_to_bits mm 30 False = Inr mmb"
     "convert_int_to_bits im 30 False = Inr imb"
     "call_sign_bits cs = Inr csb"
     "fixed_text Ship_name 20 sn = Inr snt" "ascii6_bits snt [] = Inr snb"
     "convert_int_to_bits st 8 False = Inr stb"
     "ShipDimension_bits d = Inr db"
     "ShipEta_bits e = Inr eb"
     "draught_bits dr = Inr drb"
     "fixed_text Destination 20 de = Inr det" "ascii6_bits det [] = Inr deb" and
    m: "m = init5_shape mmb imb csb snb stb db eb drb deb"
    by blast
  have "length mmb = 30" "length imb = 30" "length csb = 42" "length snb = 120"
    "length stb = 8" "length db = 30" "length eb = 20" "length drb = 8" "length deb = 120"
    using h convert_int_to_bits_length call_sign_bits_length fixed_text_length
      ascii6_bits_length ShipDimension_bits_length ShipEta_bits_length draught_bits_length
    by fastforce+
  then show ?thesis by (simp add: m init5_shape_def payload_bits5_def)
qed

lemma init5_fill_bits:
  "AISMsgType5_init mm im cs sn st d e dr de = Inr m \<Longrightarrow> fill_bits m = 0"
  by (auto dest!: init5_Inr simp: init5_shape_def)


lemma call_sign_bits_set: "call_sign_bits v = Inr b \<Longrightarrow> set b \<subseteq> {CHR ''0'', CHR ''1''}"
  by (auto simp: call_sign_bits_def bind_err_Inr_iff dest!: ascii6_bits_set)

lemma ShipDimension_bits_set: "ShipDimension_bits d = Inr b \<Longrightarrow> set b \<subseteq> {CHR ''0'', CHR ''1''}"
  by (auto simp: ShipDimension_bits_def bind_err_Inr_iff dest!: convert_int_to_bits_set)

lemma ShipEta_bits_set: "ShipEta_bits e = Inr b \<Longrightarrow> set b \<subseteq> {CHR ''0'', CHR ''1''}"
  by (auto simp: ShipEta_bits_def bind_err_Inr_iff dest!: convert_int_to_bits_set)

lemma draught_bits_set: "draught_bits v = Inr b \<Longrightarrow> set b \<subseteq> {CHR ''0'', CHR ''1''}"
  by (auto simp: draught_bits_def Let_def dest!: convert_int_to_bits_set split: if_splits)

lemma init5_payload_set:
  assumes "AISMsgType5_init mm im cs sn st d e dr de = Inr m"
  shows "set (payload_bits5 m) \<subseteq> {CHR ''0'', CHR ''1''}"
proof -
  from init5_Inr [OF assms] obtain mmb imb csb snt snb stb db eb drb det deb where
    h: "convert_int_to_bits mm 30 False = Inr mmb"
     "convert_int_to_bits im 30 False = Inr imb"
     "call_sign_bits cs = Inr csb"
     "ascii6_bits snt [] = Inr snb"
     "convert_int_to_bits st 8 False = Inr stb"
     "ShipDimension_bits d = Inr db"
     "ShipEta_bits e = Inr eb"
     "draught_bits dr = Inr drb"
     "ascii6_bits det [] = Inr deb" and
    m: "m = init5_shape mmb imb csb snb stb db eb drb deb"
    by blast
  have "set mmb \<subseteq> {CHR ''0'', CHR ''1''}" "set imb \<subseteq> {CHR ''0'', CHR ''1''}"
    "set csb \<subseteq> {CHR ''0'', CHR ''1''}" "set snb \<subseteq> {CHR ''0'', CHR ''1''}"
    "set stb \<subseteq> {CHR ''0'', CHR ''1''}" "set db \<subseteq> {CHR ''0'', CHR ''1''}"
    "set eb \<subseteq> {CHR ''0'', CHR ''1''}" "set drb \<subseteq> {CHR ''0'', CHR ''1''}"
    "set deb \<subseteq> {CHR ''0'', CHR ''1''}"
    using h(1) convert_int_to_bits_set apply blast
    using h(2) convert_int_to_bits_set apply blast
    using h(3) call_sign_bits_set apply blast
    using h(4) ascii6_bits_set [of snt "[]"] apply simp
    using h(5) convert_int_to_bits_set apply blast
    using h(6) ShipDimension_bits_set apply blast
    using h(7) ShipEta_bits_set apply blast
    using h(8) draught_bits_set apply blast
    using h(9) ascii6_bits_set [of det "[]"] apply simp
    done
  then show ?thesis by (simp add: m init5_shape_def payload_bits5_def)
qed

lemma encode1_Inr:
  assumes "encode1 p = Inr (s, p')"
  shows "length s = 28 \<and> fill_bits p' = fill_bits p"
proof -
  from assms obtain bits where b: "payload_bits1 p = Inr bits"
    and e: "s = fst (encode_bits bits (fill_bits p))"
      "p' = p\<lparr>fill_bits := snd (encode_bits bits (fill_bits p))\<rparr>"
    by (auto simp: encode1_def bind_err_Inr_iff split_beta)
  from payload_bits1_length [OF b] have "length bits = 168" .
  then show ?thesis using e by (simp add: encode_bits_length encode_bits_fill)
qed

text \<open>
  C1 (the code at the failing input). The fill-bit count of a static and voyage message is
  0 after construction, 2 after the first \<open>encode\<close> and 4 after the second: the second
  call starts from the count the first one left.
\<close>

theorem encode_twice_accumulates_fill_bits:
  "AISMsgType5_init 205344990 9134270 ''3FOF8'' ''EVER DIADEM'' 70 dimension_example
      eta_example 12.2 ''NEW YORK'' = Inr msg5_example \<and>
   fill_bits msg5_example = 0 \<and>
   fill_bits (snd (encode5 msg5_example)) = 2 \<and>
   fill_bits (snd (encode5 (snd (encode5 msg5_example)))) = 4 \<and>
   fst (encode5 (snd (encode5 msg5_example))) = fst (encode5 msg5_example)"
proof -
  have i: "AISMsgType5_init 205344990 9134270 ''3FOF8'' ''EVER DIADEM'' 70 dimension_example
      eta_example 12.2 ''NEW YORK'' = Inr msg5_example"
    by (rule init5_example)
  have l: "length (payload_bits5 msg5_example) = 424"
    by (rule init5_payload_length [OF i])
  have z: "fill_bits msg5_example = 0"
    by (rule init5_fill_bits [OF i])
  have s: "fst (encode5 (snd (encode5 msg5_example))) = fst (encode5 msg5_example)"
    by code_simp
  show ?thesis
    using i z s by (simp add: encode5_fill encode5_payload_bits l)
qed




lemma ship_type_setter_eq:
  "ship_type_setter self v =
     (if 1 \<le> v \<and> v \<le> 99 then Inr (self\<lparr>ship_type := low_bits 8 v\<rparr>)
      else Inl (ValueError Ship_type))"
  by (auto simp: ship_type_setter_def convert_int_to_bits_unsigned)






text \<open>
  C7. Each of the three string setters maps through ASCII6 the text that the shared first
  half of the setter yields. For an input of 1 to \<open>n\<close> characters that text is the input
  followed by spaces up to \<open>n\<close> characters; for a longer input the setter raises the
  \<open>ValueError\<close> of its attribute; for the empty input the text is \<open>n\<close> at signs. The
  declared counts are 7 for the call sign and 20 for the ship name and the destination.
\<close>

theorem fixed_length_strings:
  "call_sign_setter self v =
     bind_err (fixed_text Call_sign 7 v) (\<lambda>t.
     bind_err (ascii6_bits t []) (\<lambda>b. Inr (self\<lparr>call_sign := b\<rparr>))) \<and>
   ship_name_setter self v =
     bind_err (fixed_text Ship_name 20 v) (\<lambda>t.
     bind_err (ascii6_bits t []) (\<lambda>b. Inr (self\<lparr>ship_name := b\<rparr>))) \<and>
   destination_setter self v =
     bind_err (fixed_text Destination 20 v) (\<lambda>t.
     bind_err (ascii6_bits t []) (\<lambda>b. Inr (self\<lparr>destination := b\<rparr>))) \<and>
   (0 < length s \<and> length s \<le> n \<longrightarrow>
      fixed_text a n s = Inr (s @ replicate (n - length s) CHR '' '')) \<and>
   (n < length l \<longrightarrow> fixed_text a n l = Inl (ValueError a)) \<and>
   (7 < length l \<longrightarrow> call_sign_setter self l = Inl (ValueError Call_sign)) \<and>
   (20 < length l \<longrightarrow> ship_name_setter self l = Inl (ValueError Ship_name) \<and>
      destination_setter self l = Inl (ValueError Destination)) \<and>
   fixed_text a n [] = Inr (replicate n CHR ''@'')"
proof (intro conjI impI)
  show "call_sign_setter self v =
     bind_err (fixed_text Call_sign 7 v) (\<lambda>t.
     bind_err (ascii6_bits t []) (\<lambda>b. Inr (self\<lparr>call_sign := b\<rparr>)))"
    by (cases "fixed_text Call_sign 7 v") (simp_all add: call_sign_setter_eq call_sign_bits_def)
  show "ship_name_setter self v =
     bind_err (fixed_text Ship_name 20 v) (\<lambda>t.
     bind_err (ascii6_bits t []) (\<lambda>b. Inr (self\<lparr>ship_name := b\<rparr>)))"
    by (simp add: ship_name_setter_def)
  show "destination_setter self v =
     bind_err (fixed_text Destination 20 v) (\<lambda>t.
     bind_err (ascii6_bits t []) (\<lambda>b. Inr (self\<lparr>destination := b\<rparr>)))"
    by (simp add: destination_setter_def)
  show "fixed_text a n [] = Inr (replicate n CHR ''@'')"
    by (simp add: fixed_text_def)
next
  assume "0 < length s \<and> length s \<le> n"
  then show "fixed_text a n s = Inr (s @ replicate (n - length s) CHR '' '')"
    by (simp add: fixed_text_def add_padding_def)
next
  assume "n < length l"
  then show "fixed_text a n l = Inl (ValueError a)"
    by (simp add: fixed_text_def)
next
  assume "7 < length l"
  then show "call_sign_setter self l = Inl (ValueError Call_sign)"
    by (simp add: call_sign_setter_eq call_sign_bits_def fixed_text_def)
next
  assume "20 < length l"
  then show "ship_name_setter self l = Inl (ValueError Ship_name)"
    "destination_setter self l = Inl (ValueError Destination)"
    by (simp_all add: ship_name_setter_def destination_setter_def fixed_text_def)
qed

theorem fixed_length_strings_witness:
  "(0 < length ''STORM'' \<and> length ''STORM'' \<le> (20::nat)) \<and>
   fixed_text Ship_name 20 ''STORM'' = Inr ''STORM               '' \<and>
   (20::nat) < length ''THE QUICK BROWN FOX JUMPS OVER'' \<and>
   (7::nat) < length ''THE QUICK BROWN FOX JUMPS OVER'' \<and>
   fixed_text Ship_name 20 ''THE QUICK BROWN FOX JUMPS OVER'' = Inl (ValueError Ship_name) \<and>
   call_sign_setter msg5_example ''THE QUICK BROWN FOX JUMPS OVER'' = Inl (ValueError Call_sign) \<and>
   ship_name_setter msg5_example ''THE QUICK BROWN FOX JUMPS OVER'' = Inl (ValueError Ship_name) \<and>
   destination_setter msg5_example ''THE QUICK BROWN FOX JUMPS OVER''
     = Inl (ValueError Destination) \<and>
   fixed_text Ship_name 20 [] = Inr ''@@@@@@@@@@@@@@@@@@@@''"
proof -
  have r: "replicate (20 - length ''STORM'') CHR '' '' = ''               ''"
    "replicate 20 CHR ''@'' = ''@@@@@@@@@@@@@@@@@@@@''"
    by code_simp+
  show ?thesis
    using fixed_length_strings [of msg5_example "''STORM''" "''STORM''" 20 Ship_name
        "''THE QUICK BROWN FOX JUMPS OVER''"] r
    by simp
qed

text \<open>
  C8. A draught below 0 raises the \<open>ValueError\<close> of the setter. A draught above 25.5
  is replaced by 25.5 before it is multiplied by 10, truncated and encoded at 8 bits, so it
  gives the field of 25.5, which is 255; 30 is such a draught. From 0 to 25.5 the field is
  the eight bits of the truncated tenfold value.
\<close>

theorem draught_clamped:
  "(v < 0 \<longrightarrow> draught_setter self v = Inl (ValueError Draught)) \<and>
   (25.5 < w \<longrightarrow> draught_setter self w = draught_setter self 25.5) \<and>
   draught_setter self 30 = draught_setter self 25.5 \<and>
   draught_setter self 25.5 = Inr (self\<lparr>draught := ''11111111''\<rparr>) \<and>
   (0 \<le> u \<and> u \<le> 25.5 \<longrightarrow>
      draught_setter self u = Inr (self\<lparr>draught := low_bits 8 (py_int (u * 10))\<rparr>))"
proof (intro conjI impI)
  assume "v < 0"
  then show "draught_setter self v = Inl (ValueError Draught)"
    by (simp add: draught_setter_def draught_bits_def)
next
  assume "25.5 < w"
  then show "draught_setter self w = draught_setter self 25.5"
    by (simp add: draught_setter_def draught_bits_def)
next
  show "draught_setter self 30 = draught_setter self 25.5"
    by (simp add: draught_setter_def draught_bits_def)
next
  have "draught_bits 25.5 = Inr ''11111111''" by code_simp
  then show "draught_setter self 25.5 = Inr (self\<lparr>draught := ''11111111''\<rparr>)"
    by (simp add: draught_setter_def)
next
  assume u: "0 \<le> u \<and> u \<le> 25.5"
  then have "0 \<le> u * 10" "u * 10 \<le> 255" by simp_all
  then have "0 \<le> py_int (u * 10)" "py_int (u * 10) < 2 ^ 8"
    by (simp_all add: py_int_def floor_less_iff)
  then have "convert_int_to_bits (py_int (u * 10)) 8 False = Inr (low_bits 8 (py_int (u * 10)))"
    by (rule convert_int_to_bits_unsigned)
  then show "draught_setter self u = Inr (self\<lparr>draught := low_bits 8 (py_int (u * 10))\<rparr>)"
    using u by (simp add: draught_setter_def draught_bits_def)
qed

theorem draught_clamped_witness:
  "(-1::real) < 0 \<and> draught_setter msg5_example (-1) = Inl (ValueError Draught) \<and>
   (25.5::real) < 30 \<and>
   draught_setter msg5_example 30 = Inr (msg5_example\<lparr>draught := ''11111111''\<rparr>) \<and>
   (0 \<le> (12.2::real) \<and> (12.2::real) \<le> 25.5) \<and>
   draught_setter msg5_example 12.2 = Inr (msg5_example\<lparr>draught := ''01111010''\<rparr>)"
proof -
  have b: "low_bits 8 (py_int (12.2 * 10)) = ''01111010''" by code_simp
  show ?thesis
    using draught_clamped [of "-1" msg5_example 30 "12.2"] b by simp
qed

text \<open>
  C10. When the call-sign setter accepts its input, the bits it has built before the test
  \<^verbatim>\<open>len(call_sign_bits) < required_bit_count\<close> are 42, so the test fails, the padding
  branch is not taken, the stored field is those 42 bits and \<open>fill_bits\<close> keeps its
  value. The setter accepts exactly the texts of at most 7 characters with codes from 32
  to 95.
\<close>

theorem call_sign_padding_branch_dead:
  "(call_sign_setter self v = Inr self' \<longrightarrow>
      (\<exists>bits. call_sign_bits v = Inr bits \<and> length bits = 42 \<and> \<not> length bits < 42 \<and>
         self' = self\<lparr>call_sign := bits\<rparr>) \<and>
      length (call_sign self') = 42 \<and> fill_bits self' = fill_bits self) \<and>
   ((\<exists>r. call_sign_setter self v = Inr r) \<longleftrightarrow>
      length v \<le> 7 \<and> (\<forall>c \<in> set v. 32 \<le> (of_char c :: int) \<and> (of_char c :: int) < 96))"
proof (intro conjI impI)
  assume a: "call_sign_setter self v = Inr self'"
  then obtain bits where b: "call_sign_bits v = Inr bits" and s: "self' = self\<lparr>call_sign := bits\<rparr>"
    by (auto simp: call_sign_setter_eq bind_err_Inr_iff)
  have l: "length bits = 42" by (rule call_sign_bits_length [OF b])
  show "\<exists>bits. call_sign_bits v = Inr bits \<and> length bits = 42 \<and> \<not> length bits < 42 \<and>
         self' = self\<lparr>call_sign := bits\<rparr>"
    using b s l by auto
  show "length (call_sign self') = 42" using s l by simp
  show "fill_bits self' = fill_bits self" using s by simp
next
  have "(\<exists>r. call_sign_setter self v = Inr r) \<longleftrightarrow> (\<exists>b. call_sign_bits v = Inr b)"
    by (auto simp: call_sign_setter_eq bind_err_Inr_iff)
  also have "\<dots> \<longleftrightarrow> (\<exists>t. fixed_text Call_sign 7 v = Inr t \<and> (\<exists>b. ascii6_bits t [] = Inr b))"
    by (auto simp: call_sign_bits_def bind_err_Inr_iff)
  also have "\<dots> \<longleftrightarrow> length v \<le> 7 \<and>
      (\<forall>c \<in> set v. 32 \<le> (of_char c :: int) \<and> (of_char c :: int) < 96)"
    unfolding ascii6_bits_Inr_iff
    by (auto simp: fixed_text_def add_padding_def)
  finally show "(\<exists>r. call_sign_setter self v = Inr r) \<longleftrightarrow>
      length v \<le> 7 \<and> (\<forall>c \<in> set v. 32 \<le> (of_char c :: int) \<and> (of_char c :: int) < 96)" .
qed

theorem call_sign_padding_branch_dead_witness:
  "call_sign_setter (msg5_example\<lparr>fill_bits := 2\<rparr>) ''SQWD''
     = Inr (msg5_example\<lparr>fill_bits := 2, call_sign := ''010011010001010111000100100000100000100000''\<rparr>) \<and>
   length ''010011010001010111000100100000100000100000'' = 42 \<and>
   fill_bits (msg5_example\<lparr>fill_bits := 2, call_sign := ''010011010001010111000100100000100000100000''\<rparr>) = 2"
proof -
  have a: "call_sign_setter (msg5_example\<lparr>fill_bits := 2\<rparr>) ''SQWD''
     = Inr (msg5_example\<lparr>fill_bits := 2, call_sign := ''010011010001010111000100100000100000100000''\<rparr>)"
    by code_simp
  show ?thesis
    using a call_sign_padding_branch_dead [of "msg5_example\<lparr>fill_bits := 2\<rparr>" "''SQWD''"
        "msg5_example\<lparr>fill_bits := 2, call_sign := ''010011010001010111000100100000100000100000''\<rparr>"]
    by simp
qed

lemma convert_bits_to_int_snoc:
  "convert_bits_to_int (bs @ [c]) = 2 * convert_bits_to_int bs + (if c = CHR ''1'' then 1 else 0)"
  by (simp add: convert_bits_to_int_def)











section \<open>Properties of the sentence framer\<close>

lemma split_on_no_sep: "sep \<notin> set a \<Longrightarrow> split_on sep a = [a]"
  by (induction a) auto

lemma split_on_append: "sep \<notin> set a \<Longrightarrow> split_on sep (a @ sep # rest) = a # split_on sep rest"
  by (induction a) auto

lemma set_str_nat: "set (str_nat n) \<subseteq> set ''0123456789''"
proof (induction n rule: str_nat.induct)
  case (1 n)
  show ?case
  proof (cases "n < 10")
    case True
    then have "''0123456789'' ! n \<in> set ''0123456789''"
      by (intro nth_mem) simp
    then show ?thesis using True by (subst str_nat.simps) simp
  next
    case False
    have "n mod 10 < 10" by simp
    then have "''0123456789'' ! (n mod 10) \<in> set ''0123456789''"
      by (intro nth_mem) simp
    then show ?thesis using False 1 by (subst str_nat.simps) simp
  qed
qed

lemma str_nat_no_sep:
  "CHR '','' \<notin> set (str_nat n)" "CHR ''*'' \<notin> set (str_nat n)"
  using set_str_nat [of n] by auto

lemma str_int_no_sep:
  "CHR '','' \<notin> set (str_int i)" "CHR ''*'' \<notin> set (str_int i)"
  using str_nat_no_sep by (auto simp: str_int_def)


lemma convert_bits_to_int_bounds:
  "0 \<le> convert_bits_to_int bs \<and> convert_bits_to_int bs < 2 ^ length bs"
proof (induction bs rule: rev_induct)
  case Nil
  then show ?case by (simp add: convert_bits_to_int_def)
next
  case (snoc c bs)
  then show ?case by (auto simp: convert_bits_to_int_snoc)
qed

lemma armored_char_code:
  assumes "0 \<le> v" "v < 64"
  shows "(of_char (get_char_of_ascii_code (convert_decimal_to_ascii_code v)) :: int)
     = (if v < 40 then v + 48 else v + 56)"
  using assms by (simp add: get_char_of_ascii_code_def convert_decimal_to_ascii_code_def)


lemma armor_char_no_sep: "armor_char c \<Longrightarrow> c \<noteq> CHR '','' \<and> c \<noteq> CHR ''*''"
  by (auto simp: armor_char_def)

lemma wrap_item_length: "item \<in> set (wrap xs 6) \<Longrightarrow> length item \<le> 6"
  using wrap_chunk_le [of item xs 6] by simp

lemma encode_loop_chars:
  assumes "\<forall>item \<in> set items. length item \<le> 6" "\<forall>c \<in> set acc. armor_char c"
  shows "\<forall>c \<in> set (fst (encode_loop items acc fb)). armor_char c"
  using assms
proof (induction items arbitrary: acc fb)
  case Nil
  then show ?case by simp
next
  case (Cons item items)
  let ?item' = "item @ replicate (6 - length item) CHR ''0''"
  let ?ch = "get_char_of_ascii_code (convert_decimal_to_ascii_code (convert_bits_to_int ?item'))"
  have l: "length ?item' = 6" using Cons.prems(1) by simp
  have b: "0 \<le> convert_bits_to_int ?item'" "convert_bits_to_int ?item' < 64"
    using convert_bits_to_int_bounds [of ?item'] l by simp_all
  have "armor_char ?ch"
    unfolding armor_char_def armored_char_code [OF b] using b by auto
  then have acc': "\<forall>c \<in> set (acc @ [?ch]). armor_char c" using Cons.prems(2) by simp
  have items: "\<forall>item \<in> set items. length item \<le> 6" using Cons.prems(1) by simp
  have "encode_loop (item # items) acc fb
      = encode_loop items (acc @ [?ch]) (fb + int (6 - length item))"
    by (simp add: pad_item_eq Let_def)
  then show ?case using Cons.IH [OF items acc'] by simp
qed

lemma encode_bits_chars: "\<forall>c \<in> set (fst (encode_bits bits fb)). armor_char c"
  unfolding encode_bits_def
  by (rule encode_loop_chars) (auto dest: wrap_item_length)

lemma set_wrap: "c \<in> set (wrap xs n) \<Longrightarrow> set c \<subseteq> set xs"
proof (induction xs n arbitrary: c rule: wrap.induct)
  case (1 t width)
  have ne: "\<not> (width = 0 \<or> t = [])"
    using 1(2) by (subst (asm) wrap.simps) (simp split: if_splits)
  then have w: "wrap t width = take width t # wrap (drop width t) width"
    by (subst wrap.simps) simp
  from 1(2) have "c = take width t \<or> c \<in> set (wrap (drop width t) width)"
    unfolding w by simp
  then show ?case
  proof
    assume "c = take width t"
    then show ?thesis by (simp add: set_take_subset)
  next
    assume "c \<in> set (wrap (drop width t) width)"
    then have "set c \<subseteq> set (drop width t)" using 1(1) ne by blast
    then show ?thesis using set_drop_subset [of width t] by blast
  qed
qed

lemma payload_encode_Inr:
  assumes "payload_encode p = Inr (armored, p')"
  shows "\<exists>bits. payload_bits_of p = Inr bits \<and>
     armored = fst (encode_bits bits (payload_fill_bits p)) \<and>
     payload_fill_bits p' = snd (encode_bits bits (payload_fill_bits p)) \<and>
     payload_bits_of p' = Inr bits"
proof (cases p)
  case (Type1 q)
  with assms obtain bits where b: "payload_bits1 q = Inr bits"
    and e: "armored = fst (encode_bits bits (fill_bits q))"
      "p' = Type1 (q\<lparr>fill_bits := snd (encode_bits bits (fill_bits q))\<rparr>)"
    by (auto simp: encode1_def bind_err_Inr_iff split_beta)
  have "payload_bits1 (q\<lparr>fill_bits := snd (encode_bits bits (fill_bits q))\<rparr>) = payload_bits1 q"
    by (simp add: payload_bits1_def fields_to_bits_def dict_without_fill_bits_def)
  with Type1 b e show ?thesis by simp
next
  case (Type5 q)
  with assms have "armored = fst (encode5 q)" "p' = Type5 (snd (encode5 q))"
    by (auto simp: split_beta)
  with Type5 show ?thesis
    by (simp add: encode5_def split_beta payload_bits5_def)
qed

lemma NMEAMessage_init_Inr:
  assumes "NMEAMessage_init p = Inr m"
  shows "\<exists>armored p'. payload_encode p = Inr (armored, p') \<and>
     m = \<lparr>nmea_msg_type = ''AIVDM'', payload = p', payload_parts = wrap armored 60,
          number_of_sentences = length (wrap armored 60), ais_channel = ''A''\<rparr>"
  using assms by (auto simp: NMEAMessage_init_def bind_err_Inr_iff Let_def)

lemma sentences_loop_eq:
  "sentences_loop self k parts acc =
     acc @ map (\<lambda>i. (let d = sentence_data self (k + i) (parts ! i)
                      in ''!'' @ d @ ''*'' @ nmea_checksum d @ [CHR 0x0D, CHR 0x0A]))
             [0..<length parts]"
proof (induction parts arbitrary: k acc)
  case Nil
  then show ?case by simp
next
  case (Cons a parts)
  have "[0..<length (a # parts)] = 0 # map Suc [0..<length parts]"
    by (simp add: upt_conv_Cons map_Suc_upt del: upt_Suc)
  then show ?case
    using Cons.IH [of "Suc k"] by (simp add: Let_def comp_def del: upt_Suc)
qed

lemma get_sentences_length: "length (get_sentences m) = length (payload_parts m)"
  by (simp add: get_sentences_def sentences_loop_eq)

lemma get_sentences_nth:
  "i < length (payload_parts m) \<Longrightarrow>
     get_sentences m ! i =
       ''!'' @ sentence_data m (Suc i) (payload_parts m ! i) @ ''*''
         @ nmea_checksum (sentence_data m (Suc i) (payload_parts m ! i)) @ [CHR 0x0D, CHR 0x0A]"
  by (simp add: get_sentences_def sentences_loop_eq Let_def)


lemma hex_digit_mem: "hex_digit d \<in> set ''0123456789ABCDEF''"
proof -
  have "d mod 16 < length ''0123456789ABCDEF''" by simp
  then show ?thesis unfolding hex_digit_def by (rule nth_mem)
qed

lemma xor_bytes_foldl:
  "acc < 256 \<Longrightarrow> foldl (\<lambda>acc c. acc XOR of_char c) acc s < (256::nat)"
proof (induction s arbitrary: acc)
  case Nil
  then show ?case by simp
next
  case (Cons c s)
  have "take_bit 8 acc = acc" using Cons.prems by (simp add: take_bit_nat_eq_self_iff)
  moreover have "take_bit 8 (of_char c :: nat) = of_char c"
    by (simp add: take_bit_eq_mod)
  ultimately have t: "take_bit 8 (acc XOR of_char c) = acc XOR of_char c"
    by (simp add: take_bit_xor)
  have "acc XOR of_char c < 2 ^ 8"
    by (rule take_bit_nat_eq_self_iff [THEN iffD1, OF t])
  then have "acc XOR of_char c < 256" by simp
  from Cons.IH [OF this] show ?case by simp
qed

lemma xor_bytes_less: "xor_bytes s < 256"
  unfolding xor_bytes_def by (rule xor_bytes_foldl) simp

lemma split_seven:
  assumes "CHR '','' \<notin> set f1" "CHR '','' \<notin> set f2" "CHR '','' \<notin> set f3" "CHR '','' \<notin> set f4"
    "CHR '','' \<notin> set f5" "CHR '','' \<notin> set f6" "CHR '','' \<notin> set f7"
  shows "split_on CHR '','' (f1 @ '','' @ f2 @ '','' @ f3 @ '','' @ f4 @ '','' @ f5 @ '',''
      @ f6 @ '','' @ f7) = [f1, f2, f3, f4, f5, f6, f7]"
  using assms by (simp add: split_on_append split_on_no_sep)

lemma sentence_body_eq:
  "CHR ''*'' \<notin> set d \<Longrightarrow> sentence_body (''!'' @ d @ ''*'' @ rest) = d"
proof -
  assume a: "CHR ''*'' \<notin> set d"
  have "takeWhile (\<lambda>c. c \<noteq> CHR ''*'') (d @ CHR ''*'' # rest) = d"
    using a by (induction d) auto
  then show ?thesis by (simp add: sentence_body_def)
qed

lemma init_parts:
  assumes "NMEAMessage_init p = Inr m"
  shows "nmea_msg_type m = ''AIVDM''" "ais_channel m = ''A''"
    "number_of_sentences m = length (payload_parts m)"
    "\<forall>c \<in> set (payload_parts m). 0 < length c \<and> length c \<le> 60 \<and> (\<forall>x \<in> set c. armor_char x)"
    "\<exists>armored. payload_encode p = Inr (armored, payload m) \<and> payload_parts m = wrap armored 60
       \<and> concat (payload_parts m) = armored"
proof -
  from NMEAMessage_init_Inr [OF assms] obtain armored p' where
    e: "payload_encode p = Inr (armored, p')" and
    m: "m = \<lparr>nmea_msg_type = ''AIVDM'', payload = p', payload_parts = wrap armored 60,
          number_of_sentences = length (wrap armored 60), ais_channel = ''A''\<rparr>"
    by blast
  show "nmea_msg_type m = ''AIVDM''" "ais_channel m = ''A''"
    "number_of_sentences m = length (payload_parts m)"
    by (simp_all add: m)
  from payload_encode_Inr [OF e] obtain bits where
    a: "armored = fst (encode_bits bits (payload_fill_bits p))" by blast
  have ac: "\<forall>x \<in> set armored. armor_char x" unfolding a by (rule encode_bits_chars)
  show "\<forall>c \<in> set (payload_parts m). 0 < length c \<and> length c \<le> 60 \<and> (\<forall>x \<in> set c. armor_char x)"
  proof
    fix c assume "c \<in> set (payload_parts m)"
    then have c: "c \<in> set (wrap armored 60)" by (simp add: m)
    from wrap_chunk_le [OF c] set_wrap [OF c] ac
    show "0 < length c \<and> length c \<le> 60 \<and> (\<forall>x \<in> set c. armor_char x)" by auto
  qed
  show "\<exists>armored. payload_encode p = Inr (armored, payload m) \<and> payload_parts m = wrap armored 60
       \<and> concat (payload_parts m) = armored"
    using e by (simp add: m concat_wrap)
qed

lemma sentence_of_init:
  assumes "NMEAMessage_init p = Inr m" "i < number_of_sentences m"
  defines "body \<equiv> ''AIVDM'' @ '','' @ str_nat (number_of_sentences m) @ '','' @ str_nat (Suc i)
      @ '','' @ (if 1 < number_of_sentences m then ''1'' else []) @ '','' @ ''A'' @ '',''
      @ payload_parts m ! i @ '',''
      @ str_int (if Suc i = number_of_sentences m then payload_fill_bits (payload m) else 0)"
  shows "get_sentences m ! i = ''!'' @ body @ ''*'' @ nmea_checksum body @ [CHR 0x0D, CHR 0x0A]"
    and "sentence_body (get_sentences m ! i) = body"
    and "sentence_fields (get_sentences m ! i) =
      [''AIVDM'', str_nat (number_of_sentences m), str_nat (Suc i),
       (if 1 < number_of_sentences m then ''1'' else []), ''A'', payload_parts m ! i,
       str_int (if Suc i = number_of_sentences m then payload_fill_bits (payload m) else 0)]"
proof -
  note ip = init_parts [OF assms(1)]
  have i: "i < length (payload_parts m)" using assms(2) ip(3) by simp
  have d: "sentence_data m (Suc i) (payload_parts m ! i) = body"
    by (simp add: sentence_data_def Let_def ip(1,2) body_def)
  show g: "get_sentences m ! i = ''!'' @ body @ ''*'' @ nmea_checksum body @ [CHR 0x0D, CHR 0x0A]"
    using get_sentences_nth [OF i] d by simp
  have "payload_parts m ! i \<in> set (payload_parts m)" using i by simp
  with ip(4) have ch: "\<forall>x \<in> set (payload_parts m ! i). armor_char x" by blast
  then have c1: "CHR '','' \<notin> set (payload_parts m ! i)" "CHR ''*'' \<notin> set (payload_parts m ! i)"
    using armor_char_no_sep by blast+
  have star: "CHR ''*'' \<notin> set body"
    using c1(2) str_nat_no_sep(2) str_int_no_sep(2) by (simp add: body_def)
  show b: "sentence_body (get_sentences m ! i) = body"
    unfolding g using star by (rule sentence_body_eq)
  have "split_on CHR '','' body =
      [''AIVDM'', str_nat (number_of_sentences m), str_nat (Suc i),
       (if 1 < number_of_sentences m then ''1'' else []), ''A'', payload_parts m ! i,
       str_int (if Suc i = number_of_sentences m then payload_fill_bits (payload m) else 0)]"
    unfolding body_def
    by (rule split_seven) (simp_all add: c1(1) str_nat_no_sep(1) str_int_no_sep(1))
  then show "sentence_fields (get_sentences m ! i) =
      [''AIVDM'', str_nat (number_of_sentences m), str_nat (Suc i),
       (if 1 < number_of_sentences m then ''1'' else []), ''A'', payload_parts m ! i,
       str_int (if Suc i = number_of_sentences m then payload_fill_bits (payload m) else 0)]"
    by (simp add: sentence_fields_def b)
qed


lemma more_than_one_chunk: "1 < length (wrap xs 60) \<longleftrightarrow> 60 < length xs"
  by (simp add: length_wrap) linarith





text \<open>
  C5. The fourth field of the body, the fragment-group id, is the digit 1 in every sentence
  of a message of more than one sentence and empty in the sentence of a message of one;
  a message has more than one sentence exactly when its armored payload is longer than 60
  characters.
\<close>

theorem fragment_group_id:
  "NMEAMessage_init p = Inr m \<longrightarrow>
     (\<exists>armored. payload_encode p = Inr (armored, payload m) \<and>
        payload_parts m = wrap armored 60 \<and>
        (1 < number_of_sentences m \<longleftrightarrow> 60 < length armored)) \<and>
     number_of_sentences m = length (payload_parts m) \<and>
     (i < number_of_sentences m \<longrightarrow>
        sentence_fields (get_sentences m ! i) ! 3 =
          (if 1 < number_of_sentences m then ''1'' else []))"
proof (intro impI conjI)
  assume i: "NMEAMessage_init p = Inr m"
  show n: "number_of_sentences m = length (payload_parts m)" by (rule init_parts(3) [OF i])
  from init_parts(5) [OF i] obtain armored where
    a: "payload_encode p = Inr (armored, payload m)" "payload_parts m = wrap armored 60"
    by blast
  then show "\<exists>armored. payload_encode p = Inr (armored, payload m) \<and>
        payload_parts m = wrap armored 60 \<and>
        (1 < number_of_sentences m \<longleftrightarrow> 60 < length armored)"
    using n more_than_one_chunk [of armored] by auto
next
  assume i: "NMEAMessage_init p = Inr m" and l: "i < number_of_sentences m"
  show "sentence_fields (get_sentences m ! i) ! 3 =
          (if 1 < number_of_sentences m then ''1'' else [])"
    unfolding sentence_of_init(3) [OF i l] by simp
qed

theorem fragment_group_id_witness:
  "NMEAMessage_init (Type5 msg5_example) = Inr nmea5_example \<and>
   (1::nat) < number_of_sentences nmea5_example \<and>
   sentence_fields (get_sentences nmea5_example ! 1) ! 3 = ''1'' \<and>
   NMEAMessage_init (Type1 msg1_example) = Inr nmea1_example \<and>
   (0::nat) < number_of_sentences nmea1_example \<and>
   sentence_fields (get_sentences nmea1_example ! 0) ! 3 = [] \<and>
   get_sentences nmea1_example =
     [''!AIVDM,1,1,,A,133m@ogP00PD;88MD5MTDww@2D7k,0*46'' @ [CHR 0x0D, CHR 0x0A]]"
proof -
  have i5: "NMEAMessage_init (Type5 msg5_example) = Inr nmea5_example" by code_simp
  have i1: "NMEAMessage_init (Type1 msg1_example) = Inr nmea1_example" by code_simp
  have g: "get_sentences nmea1_example =
     [''!AIVDM,1,1,,A,133m@ogP00PD;88MD5MTDww@2D7k,0*46'' @ [CHR 0x0D, CHR 0x0A]]" by code_simp
  have n5: "number_of_sentences nmea5_example = 2"
    and n1: "number_of_sentences nmea1_example = 1"
    by (simp_all add: nmea5_example_def nmea1_example_def)
  have l5: "(1::nat) < number_of_sentences nmea5_example"
    and l1: "(0::nat) < number_of_sentences nmea1_example"
    by (simp_all add: n5 n1)
  have f5: "sentence_fields (get_sentences nmea5_example ! 1) ! 3 = ''1''"
    using fragment_group_id [of "Type5 msg5_example" nmea5_example 1, THEN mp, OF i5,
        THEN conjunct2, THEN conjunct2, THEN mp, OF l5]
    by (simp add: n5)
  have f1: "sentence_fields (get_sentences nmea1_example ! 0) ! 3 = []"
    using fragment_group_id [of "Type1 msg1_example" nmea1_example 0, THEN mp, OF i1,
        THEN conjunct2, THEN conjunct2, THEN mp, OF l1]
    by (simp add: n1)
  show ?thesis by (intro conjI i5 l5 f5 i1 l1 f1 g)
qed

text \<open>
  C6. The sentences of a constructed message are as many as the chunks of its armored
  payload; the chunks have 1 to 60 characters and concatenate to the armored payload; the
  sentence of index \<open>i + 1\<close> is an exclamation mark, the body
  \<^verbatim>\<open>AIVDM,<count>,<index>,<fragid>,A,<chunk>,<fillbits>\<close>, a star, two upper-case
  hexadecimal digits and CR LF; the digits are those of the exclusive or of the bytes of the
  body, a value below 256; the body is the text between the exclamation mark and the first
  star, and its third field is the index.
\<close>

theorem sentences_exact_form:
  "NMEAMessage_init p = Inr m \<longrightarrow>
     (\<exists>armored. payload_encode p = Inr (armored, payload m) \<and>
        payload_parts m = wrap armored 60 \<and> concat (payload_parts m) = armored) \<and>
     length (get_sentences m) = number_of_sentences m \<and>
     length (payload_parts m) = number_of_sentences m \<and>
     (i < number_of_sentences m \<longrightarrow>
        0 < length (payload_parts m ! i) \<and> length (payload_parts m ! i) \<le> 60 \<and>
        (let body = ''AIVDM,'' @ str_nat (number_of_sentences m) @ '','' @ str_nat (Suc i)
               @ '','' @ (if 1 < number_of_sentences m then ''1'' else []) @ '',A,''
               @ payload_parts m ! i @ '',''
               @ str_int (if Suc i = number_of_sentences m
                          then payload_fill_bits (payload m) else 0);
             x = xor_bytes body
         in get_sentences m ! i =
              ''!'' @ body @ ''*'' @ [hex_digit (x div 16), hex_digit (x mod 16)]
                @ [CHR 0x0D, CHR 0x0A] \<and>
            sentence_body (get_sentences m ! i) = body \<and>
            x < 256 \<and>
            hex_digit (x div 16) \<in> set ''0123456789ABCDEF'' \<and>
            hex_digit (x mod 16) \<in> set ''0123456789ABCDEF'' \<and>
            sentence_fields (get_sentences m ! i) ! 1 = str_nat (number_of_sentences m) \<and>
            sentence_fields (get_sentences m ! i) ! 2 = str_nat (Suc i) \<and>
            sentence_fields (get_sentences m ! i) ! 5 = payload_parts m ! i))"
proof (intro impI conjI)
  assume i: "NMEAMessage_init p = Inr m"
  show "\<exists>armored. payload_encode p = Inr (armored, payload m) \<and>
        payload_parts m = wrap armored 60 \<and> concat (payload_parts m) = armored"
    by (rule init_parts(5) [OF i])
  show "length (get_sentences m) = number_of_sentences m"
    using get_sentences_length [of m] init_parts(3) [OF i] by simp
  show "length (payload_parts m) = number_of_sentences m"
    using init_parts(3) [OF i] by simp
next
  assume i: "NMEAMessage_init p = Inr m" and l: "i < number_of_sentences m"
  have "payload_parts m ! i \<in> set (payload_parts m)"
    using l init_parts(3) [OF i] by simp
  with init_parts(4) [OF i]
  show "0 < length (payload_parts m ! i)" "length (payload_parts m ! i) \<le> 60" by blast+
next
  assume i: "NMEAMessage_init p = Inr m" and l: "i < number_of_sentences m"
  note s = sentence_of_init [OF i l]
  let ?body = "''AIVDM,'' @ str_nat (number_of_sentences m) @ '','' @ str_nat (Suc i)
               @ '','' @ (if 1 < number_of_sentences m then ''1'' else []) @ '',A,''
               @ payload_parts m ! i @ '',''
               @ str_int (if Suc i = number_of_sentences m
                          then payload_fill_bits (payload m) else 0)"
  have b: "sentence_body (get_sentences m ! i) = ?body"
    unfolding s(2) by simp
  have g: "get_sentences m ! i =
      ''!'' @ ?body @ ''*'' @ [hex_digit (xor_bytes ?body div 16), hex_digit (xor_bytes ?body mod 16)]
        @ [CHR 0x0D, CHR 0x0A]"
    unfolding s(1) by (simp add: nmea_checksum_def Let_def)
  have x: "xor_bytes ?body < 256" by (rule xor_bytes_less)
  have h: "hex_digit (xor_bytes ?body div 16) \<in> set ''0123456789ABCDEF''"
    "hex_digit (xor_bytes ?body mod 16) \<in> set ''0123456789ABCDEF''"
    by (rule hex_digit_mem)+
  have f: "sentence_fields (get_sentences m ! i) ! 1 = str_nat (number_of_sentences m)"
    "sentence_fields (get_sentences m ! i) ! 2 = str_nat (Suc i)"
    "sentence_fields (get_sentences m ! i) ! 5 = payload_parts m ! i"
    unfolding s(3) by simp_all
  show "let body = ''AIVDM,'' @ str_nat (number_of_sentences m) @ '','' @ str_nat (Suc i)
               @ '','' @ (if 1 < number_of_sentences m then ''1'' else []) @ '',A,''
               @ payload_parts m ! i @ '',''
               @ str_int (if Suc i = number_of_sentences m
                          then payload_fill_bits (payload m) else 0);
             x = xor_bytes body
         in get_sentences m ! i =
              ''!'' @ body @ ''*'' @ [hex_digit (x div 16), hex_digit (x mod 16)]
                @ [CHR 0x0D, CHR 0x0A] \<and>
            sentence_body (get_sentences m ! i) = body \<and>
            x < 256 \<and>
            hex_digit (x div 16) \<in> set ''0123456789ABCDEF'' \<and>
            hex_digit (x mod 16) \<in> set ''0123456789ABCDEF'' \<and>
            sentence_fields (get_sentences m ! i) ! 1 = str_nat (number_of_sentences m) \<and>
            sentence_fields (get_sentences m ! i) ! 2 = str_nat (Suc i) \<and>
            sentence_fields (get_sentences m ! i) ! 5 = payload_parts m ! i"
    unfolding Let_def
    by (intro conjI) (rule g b x h f)+
qed

theorem sentences_exact_form_witness:
  "NMEAMessage_init (Type5 msg5_example) = Inr nmea5_example \<and>
   (1::nat) < number_of_sentences nmea5_example \<and>
   length (get_sentences nmea5_example) = 2 \<and>
   get_sentences nmea5_example ! 1 = ''!AIVDM,2,2,1,A,88888888880,2*25'' @ [CHR 0x0D, CHR 0x0A] \<and>
   sentence_body (get_sentences nmea5_example ! 1) = ''AIVDM,2,2,1,A,88888888880,2'' \<and>
   sentence_fields (get_sentences nmea5_example ! 1) ! 2 = ''2'' \<and>
   xor_bytes ''AIVDM,2,2,1,A,88888888880,2'' = 37 \<and>
   concat (payload_parts nmea5_example) =
     ''533m@o`2;H;s<HtKR20EHE:0@T4@Dn2222222216L961O5Gf0NSQEp6ClRp888888888880''"
proof -
  have i: "NMEAMessage_init (Type5 msg5_example) = Inr nmea5_example" by code_simp
  have n: "number_of_sentences nmea5_example = 2"
    "payload_fill_bits (payload nmea5_example) = 2"
    "payload_parts nmea5_example ! 1 = ''88888888880''"
    and c: "concat (payload_parts nmea5_example) =
       ''533m@o`2;H;s<HtKR20EHE:0@T4@Dn2222222216L961O5Gf0NSQEp6ClRp888888888880''"
    by (simp_all add: nmea5_example_def)
  have l: "(1::nat) < number_of_sentences nmea5_example" by (simp add: n)
  have x: "xor_bytes ''AIVDM,2,2,1,A,88888888880,2'' = 37" by code_simp
  have e: "str_nat 2 = ''2''" "str_int 2 = ''2''"
    "hex_digit 2 = CHR ''2''" "hex_digit 5 = CHR ''5''"
    by code_simp+
  have e': "str_nat (Suc (Suc 0)) = ''2''" by code_simp
  have n': "payload_parts nmea5_example ! Suc 0 = ''88888888880''"
    by (simp add: nmea5_example_def)
  note t = sentences_exact_form [of "Type5 msg5_example" nmea5_example 1, THEN mp, OF i]
  have len: "length (get_sentences nmea5_example) = 2"
    using t [THEN conjunct2, THEN conjunct1] by (simp add: n)
  note t4 = t [THEN conjunct2, THEN conjunct2, THEN conjunct2, THEN mp, OF l,
      unfolded Let_def, THEN conjunct2, THEN conjunct2]
  have r1: "get_sentences nmea5_example ! 1
        = ''!AIVDM,2,2,1,A,88888888880,2*25'' @ [CHR 0x0D, CHR 0x0A]"
    using t4 [THEN conjunct1] by (simp add: n e x e' n')
  have r2: "sentence_body (get_sentences nmea5_example ! 1) = ''AIVDM,2,2,1,A,88888888880,2''"
    using t4 [THEN conjunct2, THEN conjunct1] by (simp add: n e x e' n')
  have r3: "sentence_fields (get_sentences nmea5_example ! 1) ! 2 = ''2''"
    using t4 [THEN conjunct2, THEN conjunct2, THEN conjunct2, THEN conjunct2, THEN conjunct2,
        THEN conjunct2, THEN conjunct1]
    by (simp add: e')
  show ?thesis by (intro conjI i l len r1 r2 r3 x c)
qed

section \<open>Sizes of the payloads\<close>

lemma well_sized_payload: "well_sized m \<Longrightarrow> length (payload_bits5 m) = 424"
  by (simp add: well_sized_def payload_bits5_def)

lemma init5_well_sized:
  assumes "AISMsgType5_init mm im cs sn st d e dr de = Inr m"
  shows "well_sized m"
proof -
  from init5_Inr [OF assms] obtain mmb imb csb snt snb stb db eb drb det deb where
    h: "convert_int_to_bits mm 30 False = Inr mmb"
     "convert_int_to_bits im 30 False = Inr imb"
     "call_sign_bits cs = Inr csb"
     "fixed_text Ship_name 20 sn = Inr snt" "ascii6_bits snt [] = Inr snb"
     "convert_int_to_bits st 8 False = Inr stb"
     "ShipDimension_bits d = Inr db"
     "ShipEta_bits e = Inr eb"
     "draught_bits dr = Inr drb"
     "fixed_text Destination 20 de = Inr det" "ascii6_bits det [] = Inr deb" and
    m: "m = init5_shape mmb imb csb snb stb db eb drb deb"
    by blast
  have "length mmb = 30" "length imb = 30" "length csb = 42" "length snb = 120"
    "length stb = 8" "length db = 30" "length eb = 20" "length drb = 8" "length deb = 120"
    using h convert_int_to_bits_length call_sign_bits_length fixed_text_length
      ascii6_bits_length ShipDimension_bits_length ShipEta_bits_length draught_bits_length
    by fastforce+
  then show ?thesis by (simp add: m init5_shape_def well_sized_def)
qed

lemma setters_well_sized:
  assumes "well_sized m"
  shows "mmsi_setter m k = Inr m' \<Longrightarrow> well_sized m'"
    and "imo_setter m k = Inr m' \<Longrightarrow> well_sized m'"
    and "call_sign_setter m v = Inr m' \<Longrightarrow> well_sized m'"
    and "ship_name_setter m v = Inr m' \<Longrightarrow> well_sized m'"
    and "ship_type_setter m k = Inr m' \<Longrightarrow> well_sized m'"
    and "dimension_setter m dd = Inr m' \<Longrightarrow> well_sized m'"
    and "eta_setter m ee = Inr m' \<Longrightarrow> well_sized m'"
    and "draught_setter m x = Inr m' \<Longrightarrow> well_sized m'"
    and "destination_setter m v = Inr m' \<Longrightarrow> well_sized m'"
    and "well_sized (snd (encode5 m))"
proof -
  show "mmsi_setter m k = Inr m' \<Longrightarrow> well_sized m'"
    using assms by (auto simp: mmsi_setter_def bind_err_Inr_iff well_sized_def
        dest: convert_int_to_bits_length)
  show "imo_setter m k = Inr m' \<Longrightarrow> well_sized m'"
    using assms by (auto simp: imo_setter_def bind_err_Inr_iff well_sized_def
        dest: convert_int_to_bits_length)
  show "call_sign_setter m v = Inr m' \<Longrightarrow> well_sized m'"
    using assms by (auto simp: call_sign_setter_eq bind_err_Inr_iff well_sized_def
        dest: call_sign_bits_length)
  show "ship_name_setter m v = Inr m' \<Longrightarrow> well_sized m'"
    using assms by (auto simp: ship_name_setter_def bind_err_Inr_iff well_sized_def
        dest!: fixed_text_length ascii6_bits_length)
  show "ship_type_setter m k = Inr m' \<Longrightarrow> well_sized m'"
    using assms by (auto simp: ship_type_setter_eq well_sized_def split: if_splits)
  show "dimension_setter m dd = Inr m' \<Longrightarrow> well_sized m'"
    using assms by (auto simp: dimension_setter_def bind_err_Inr_iff well_sized_def
        dest: ShipDimension_bits_length)
  show "eta_setter m ee = Inr m' \<Longrightarrow> well_sized m'"
    using assms by (auto simp: eta_setter_def bind_err_Inr_iff well_sized_def
        dest: ShipEta_bits_length)
  show "draught_setter m x = Inr m' \<Longrightarrow> well_sized m'"
    using assms by (auto simp: draught_setter_def bind_err_Inr_iff well_sized_def
        dest: draught_bits_length)
  show "destination_setter m v = Inr m' \<Longrightarrow> well_sized m'"
    using assms by (auto simp: destination_setter_def bind_err_Inr_iff well_sized_def
        dest!: fixed_text_length ascii6_bits_length)
  show "well_sized (snd (encode5 m))"
    using assms by (simp add: encode5_def split_beta well_sized_def)
qed


text \<open>
  C3. The payload bits of a constructed static and voyage message are 424 characters, each
  0 or 1; its first \<open>encode\<close> returns 71 characters and leaves a fill-bit count of 2.
  The sizes of the fifteen bit fields, which a construction establishes, are kept by every
  setter and by \<open>encode\<close>, and they give a payload of 424 bits that armors to 71
  characters with two more fill bits. A payload of 168 bits armors to 28 characters and
  adds no fill bit; the payload of a position report has 168 bits, so its \<open>encode\<close>
  returns 28 characters and leaves the fill-bit count as it was.
\<close>

theorem payload_sizes:
  "(AISMsgType5_init mm im cs sn st d e dr de = Inr m \<longrightarrow>
      well_sized m \<and>
      length (payload_bits5 m) = 424 \<and> set (payload_bits5 m) \<subseteq> {CHR ''0'', CHR ''1''} \<and>
      length (fst (encode5 m)) = 71 \<and> fill_bits (snd (encode5 m)) = 2) \<and>
   (well_sized w \<and>
      (mmsi_setter w k = Inr w' \<or> imo_setter w k = Inr w' \<or> call_sign_setter w v = Inr w' \<or>
       ship_name_setter w v = Inr w' \<or> ship_type_setter w k = Inr w' \<or>
       dimension_setter w dd = Inr w' \<or> eta_setter w ee = Inr w' \<or>
       draught_setter w x = Inr w' \<or> destination_setter w v = Inr w' \<or>
       w' = snd (encode5 w)) \<longrightarrow> well_sized w') \<and>
   (well_sized w \<longrightarrow>
      length (payload_bits5 w) = 424 \<and> length (fst (encode5 w)) = 71 \<and>
      fill_bits (snd (encode5 w)) = fill_bits w + 2) \<and>
   (length bits = 168 \<longrightarrow>
      length (fst (encode_bits bits fb)) = 28 \<and> snd (encode_bits bits fb) = fb) \<and>
   (payload_bits1 p = Inr bits1 \<longrightarrow> length bits1 = 168) \<and>
   (encode1 p = Inr (s, p') \<longrightarrow> length s = 28 \<and> fill_bits p' = fill_bits p)"
proof (intro conjI impI)
  assume i: "AISMsgType5_init mm im cs sn st d e dr de = Inr m"
  show "well_sized m" by (rule init5_well_sized [OF i])
  show l: "length (payload_bits5 m) = 424" by (rule init5_payload_length [OF i])
  show "set (payload_bits5 m) \<subseteq> {CHR ''0'', CHR ''1''}" by (rule init5_payload_set [OF i])
  show "length (fst (encode5 m)) = 71" by (simp add: encode5_length l)
  show "fill_bits (snd (encode5 m)) = 2" by (simp add: encode5_fill l init5_fill_bits [OF i])
next
  assume a: "well_sized w \<and>
      (mmsi_setter w k = Inr w' \<or> imo_setter w k = Inr w' \<or> call_sign_setter w v = Inr w' \<or>
       ship_name_setter w v = Inr w' \<or> ship_type_setter w k = Inr w' \<or>
       dimension_setter w dd = Inr w' \<or> eta_setter w ee = Inr w' \<or>
       draught_setter w x = Inr w' \<or> destination_setter w v = Inr w' \<or>
       w' = snd (encode5 w))"
  then have w: "well_sized w" by simp
  note sw = setters_well_sized [OF w]
  from a show "well_sized w'"
    by (elim conjE disjE) (erule sw, erule sw, erule sw, erule sw, erule sw, erule sw,
        erule sw, erule sw, erule sw, simp add: sw(10))
next
  assume "well_sized w"
  then have l: "length (payload_bits5 w) = 424" by (rule well_sized_payload)
  then show "length (payload_bits5 w) = 424" .
  show "length (fst (encode5 w)) = 71" by (simp add: encode5_length l)
  show "fill_bits (snd (encode5 w)) = fill_bits w + 2" by (simp add: encode5_fill l)
next
  assume "length bits = 168"
  then show "length (fst (encode_bits bits fb)) = 28" "snd (encode_bits bits fb) = fb"
    by (simp_all add: encode_bits_length encode_bits_fill)
next
  assume "payload_bits1 p = Inr bits1"
  then show "length bits1 = 168" by (rule payload_bits1_length)
next
  assume "encode1 p = Inr (s, p')"
  then show "length s = 28" "fill_bits p' = fill_bits p" using encode1_Inr by blast+
qed

theorem payload_sizes_witness:
  "AISMsgType5_init 205344990 9134270 ''3FOF8'' ''EVER DIADEM'' 70 dimension_example
      eta_example 12.2 ''NEW YORK'' = Inr msg5_example \<and>
   well_sized msg5_example \<and>
   length (payload_bits5 msg5_example) = 424 \<and>
   length (fst (encode5 msg5_example)) = 71 \<and> fill_bits (snd (encode5 msg5_example)) = 2 \<and>
   call_sign_setter msg5_example ''SQWD''
     = Inr (msg5_example\<lparr>call_sign := ''010011010001010111000100100000100000100000''\<rparr>) \<and>
   well_sized (msg5_example\<lparr>call_sign := ''010011010001010111000100100000100000100000''\<rparr>) \<and>
   length (replicate 168 CHR ''0'') = 168 \<and>
   length (fst (encode_bits (replicate 168 CHR ''0'') 0)) = 28 \<and>
   snd (encode_bits (replicate 168 CHR ''0'') 0) = 0 \<and>
   payload_bits1 msg1_example = Inr
     ''000001000011000011110101010000110111101111100000000000000000100000010100001011001000001000011101010100000101011101100100010100111111111111010000000010010100000111110011'' \<and>
   encode1 msg1_example = Inr (''133m@ogP00PD;88MD5MTDww@2D7k'', msg1_example) \<and>
   length ''133m@ogP00PD;88MD5MTDww@2D7k'' = 28"
proof -
  have i: "AISMsgType5_init 205344990 9134270 ''3FOF8'' ''EVER DIADEM'' 70 dimension_example
      eta_example 12.2 ''NEW YORK'' = Inr msg5_example"
    by code_simp
  have c: "call_sign_setter msg5_example ''SQWD''
     = Inr (msg5_example\<lparr>call_sign := ''010011010001010111000100100000100000100000''\<rparr>)"
    by code_simp
  have b: "payload_bits1 msg1_example = Inr
     ''000001000011000011110101010000110111101111100000000000000000100000010100001011001000001000011101010100000101011101100100010100111111111111010000000010010100000111110011''"
    by code_simp
  have e: "encode1 msg1_example = Inr (''133m@ogP00PD;88MD5MTDww@2D7k'', msg1_example)"
    by code_simp
  have r: "length (replicate 168 CHR ''0'') = 168" by simp
  note t = payload_sizes [of 205344990 9134270 "''3FOF8''" "''EVER DIADEM''" 70
      dimension_example eta_example "12.2" "''NEW YORK''" msg5_example msg5_example 0
      "msg5_example\<lparr>call_sign := ''010011010001010111000100100000100000100000''\<rparr>"
      "''SQWD''" dimension_example eta_example 0 "replicate 168 CHR ''0''" 0 msg1_example _
      "''133m@ogP00PD;88MD5MTDww@2D7k''" msg1_example]
  note t1 = t [THEN conjunct1, THEN mp, OF i]
  have w: "well_sized msg5_example" by (rule t1 [THEN conjunct1])
  have p: "length (payload_bits5 msg5_example) = 424"
    by (rule t1 [THEN conjunct2, THEN conjunct1])
  have a: "length (fst (encode5 msg5_example)) = 71"
    by (rule t1 [THEN conjunct2, THEN conjunct2, THEN conjunct2, THEN conjunct1])
  have f: "fill_bits (snd (encode5 msg5_example)) = 2"
    by (rule t1 [THEN conjunct2, THEN conjunct2, THEN conjunct2, THEN conjunct2])
  have w': "well_sized (msg5_example\<lparr>call_sign := ''010011010001010111000100100000100000100000''\<rparr>)"
  proof (rule t [THEN conjunct2, THEN conjunct1, THEN mp], rule conjI)
    show "well_sized msg5_example" by (rule w)
    show "mmsi_setter msg5_example 0 =
        Inr (msg5_example\<lparr>call_sign := ''010011010001010111000100100000100000100000''\<rparr>) \<or>
      imo_setter msg5_example 0 =
        Inr (msg5_example\<lparr>call_sign := ''010011010001010111000100100000100000100000''\<rparr>) \<or>
      call_sign_setter msg5_example ''SQWD'' =
        Inr (msg5_example\<lparr>call_sign := ''010011010001010111000100100000100000100000''\<rparr>) \<or>
      ship_name_setter msg5_example ''SQWD'' =
        Inr (msg5_example\<lparr>call_sign := ''010011010001010111000100100000100000100000''\<rparr>) \<or>
      ship_type_setter msg5_example 0 =
        Inr (msg5_example\<lparr>call_sign := ''010011010001010111000100100000100000100000''\<rparr>) \<or>
      dimension_setter msg5_example dimension_example =
        Inr (msg5_example\<lparr>call_sign := ''010011010001010111000100100000100000100000''\<rparr>) \<or>
      eta_setter msg5_example eta_example =
        Inr (msg5_example\<lparr>call_sign := ''010011010001010111000100100000100000100000''\<rparr>) \<or>
      draught_setter msg5_example 0 =
        Inr (msg5_example\<lparr>call_sign := ''010011010001010111000100100000100000100000''\<rparr>) \<or>
      destination_setter msg5_example ''SQWD'' =
        Inr (msg5_example\<lparr>call_sign := ''010011010001010111000100100000100000100000''\<rparr>) \<or>
      msg5_example\<lparr>call_sign := ''010011010001010111000100100000100000100000''\<rparr> =
        snd (encode5 msg5_example)"
      by (rule disjI2, rule disjI2, rule disjI1, rule c)
  qed
  note t4 = t [THEN conjunct2, THEN conjunct2, THEN conjunct2, THEN conjunct1, THEN mp, OF r]
  have z: "length ''133m@ogP00PD;88MD5MTDww@2D7k'' = 28"
    by (rule t [THEN conjunct2, THEN conjunct2, THEN conjunct2, THEN conjunct2,
          THEN conjunct2, THEN mp, OF e, THEN conjunct1])
  show ?thesis
    by (intro conjI i w p a f c w' r t4 [THEN conjunct1] t4 [THEN conjunct2] b e z)
qed

end
